theory Spec2Isabelle
  imports Main
begin

section \<open>Relationships: data model\<close>

text \<open>
  The routes of \<^verbatim>\<open>src/api/routes/users/@me/relationships.ts\<close> work on two tables,
  users and relationships, and emit gateway events. Ids are snowflake strings.
\<close>

type_synonym snowflake = string

datatype RelationshipType = friends | blocked | incoming | outgoing

text \<open>
  Modelled from the spec: the \<^verbatim>\<open>Relationship\<close> entity is declared outside the sources
  at hand. The spec's data model gives an edge its owner, its other end and its kind, with at
  most one edge per ordered pair, and keys every store operation by that pair; the row's
  primary key is therefore not modelled, and a row is identified by \<open>(from_id, to_id)\<close>.
\<close>

record Relationship =
  from_id :: snowflake
  to_id :: snowflake
  type :: RelationshipType

text \<open>A user as \<^verbatim>\<open>User.findOneOrFail\<close> returns it with \<^verbatim>\<open>relations: ["relationships"]\<close>.\<close>

record User =
  id' :: snowflake
  relationships :: "Relationship list"

datatype event_name = RELATIONSHIP_ADD | RELATIONSHIP_REMOVE

text \<open>
  An emitted event: \<open>data\<close> is the relationship whose \<^verbatim>\<open>toPublicRelationship()\<close> is sent,
  \<open>user_id\<close> the user whose sessions receive it.
\<close>

record Event =
  event :: event_name
  user_id :: snowflake
  data :: Relationship
  should_notify :: bool

text \<open>
  The world a route runs in: the ids of the rows of the users table, the relationships table,
  the events emitted so far (oldest first) and the ids queried with \<^verbatim>\<open>User.findOneOrFail\<close>
  so far (oldest first).
\<close>

record Store =
  users :: "snowflake list"
  table :: "Relationship list"
  emitted :: "Event list"
  queries :: "snowflake list"

text \<open>
  What a route throws. \<open>HTTPError\<close> carries the HTTP status (400 unless the source gives
  one); \<open>EntityNotFound\<close> is the failure of \<^verbatim>\<open>findOneOrFail\<close>; \<open>FieldErrors field code\<close>
  is a form error on one field.
\<close>

datatype http_message =
    CantAddSelf           \<comment> \<open>You can't add yourself as a friend\<close>
  | CantRemoveSelf        \<comment> \<open>You can't remove yourself as a friend\<close>
  | NotFriends            \<comment> \<open>You are not friends with the user\<close>
  | AlreadyBlocked        \<comment> \<open>You already blocked the user\<close>
  | UserBlockedYou        \<comment> \<open>The user blocked you\<close>
  | AlreadyFriends        \<comment> \<open>You are already friends with the user\<close>
  | AlreadySent           \<comment> \<open>You already sent a friend request\<close>
  | UnblockFirst          \<comment> \<open>Unblock the user before sending a friend request\<close>
  | IpBlocked             \<comment> \<open>Your IP is blocked from registration\<close>

datatype error =
    HTTPError http_message nat
  | MAXIMUM_FRIENDS nat
  | EntityNotFound
  | FieldErrors string string
  | External string

section \<open>Relationships: store operations\<close>

definition same_pair :: "Relationship \<Rightarrow> Relationship \<Rightarrow> bool" where
  "same_pair x r \<longleftrightarrow> from_id x = from_id r \<and> to_id x = to_id r"

text \<open>\<^verbatim>\<open>r.save()\<close>: the row of that pair is overwritten, or a new row is inserted.\<close>

definition save :: "Relationship \<Rightarrow> Relationship list \<Rightarrow> Relationship list" where
  "save r tbl =
     (if \<exists>x \<in> set tbl. same_pair x r
      then map (\<lambda>x. if same_pair x r then r else x) tbl
      else tbl @ [r])"

text \<open>\<^verbatim>\<open>Relationship.delete({ id: r.id })\<close>.\<close>

definition delete :: "Relationship \<Rightarrow> Relationship list \<Rightarrow> Relationship list" where
  "delete r tbl = filter (\<lambda>x. \<not> same_pair x r) tbl"

definition Relationship_save :: "Relationship \<Rightarrow> Store \<Rightarrow> Store" where
  "Relationship_save r s = s\<lparr>table := save r (table s)\<rparr>"

definition Relationship_delete :: "Relationship \<Rightarrow> Store \<Rightarrow> Store" where
  "Relationship_delete r s = s\<lparr>table := delete r (table s)\<rparr>"

definition emitEvent :: "Event \<Rightarrow> Store \<Rightarrow> Store" where
  "emitEvent e s = s\<lparr>emitted := emitted s @ [e]\<rparr>"

text \<open>
  \<^verbatim>\<open>User.findOneOrFail({ where: { id }, relations: ["relationships"] })\<close>: the query is
  recorded; the user comes back with the rows it owns, or nothing when no user has that id.
\<close>

definition findOneOrFail :: "snowflake \<Rightarrow> Store \<Rightarrow> User option \<times> Store" where
  "findOneOrFail uid s =
     (if uid \<in> set (users s)
      then Some \<lparr>id' = uid, relationships = filter (\<lambda>r. from_id r = uid) (table s)\<rparr>
      else None,
      s\<lparr>queries := queries s @ [uid]\<rparr>)"

section \<open>Relationships: the routes\<close>

text \<open>
  \<^verbatim>\<open>updateRelationship(req, res, friend, type)\<close>. \<open>maxFriends\<close> is
  \<^verbatim>\<open>Config.get().limits.user.maxFriends\<close>, \<open>me\<close> is \<^verbatim>\<open>req.user_id\<close>. The result is
  what is thrown or the status sent, with the store as the request leaves it.
\<close>

definition updateRelationship ::
  "nat \<Rightarrow> snowflake \<Rightarrow> User \<Rightarrow> RelationshipType \<Rightarrow> Store \<Rightarrow> (error + nat) \<times> Store" where
  "updateRelationship maxFriends me friend ty s0 =
     (let ident = id' friend in
      if ident = me then (Inl (HTTPError CantAddSelf 400), s0)
      else
        case findOneOrFail me s0 of
          (None, s1) \<Rightarrow> (Inl EntityNotFound, s1)
        | (Some user, s1) \<Rightarrow>
            let relationship = find (\<lambda>x. to_id x = ident) (relationships user);
                friendRequest = find (\<lambda>x. to_id x = me) (relationships friend)
            in
              if ty = blocked then
                (case (case relationship of
                         Some rel \<Rightarrow>
                           if type rel = blocked then Inl (HTTPError AlreadyBlocked 400)
                           else Inr (rel\<lparr>type := blocked\<rparr>)
                       | None \<Rightarrow> Inr \<lparr>from_id = me, to_id = ident, type = blocked\<rparr>) of
                   Inl e \<Rightarrow> (Inl e, s1)
                 | Inr rel \<Rightarrow>
                     let s2 = Relationship_save rel s1;
                         s3 = (case friendRequest of
                                 Some fr \<Rightarrow>
                                   if type fr \<noteq> blocked
                                   then emitEvent \<lparr>event = RELATIONSHIP_REMOVE, user_id = ident,
                                                   data = fr, should_notify = False\<rparr>
                                          (Relationship_delete fr s2)
                                   else s2
                               | None \<Rightarrow> s2)
                     in (Inr 204,
                         emitEvent \<lparr>event = RELATIONSHIP_ADD, user_id = me,
                                    data = rel, should_notify = False\<rparr> s3))
              else if length (relationships user) \<ge> maxFriends
              then (Inl (MAXIMUM_FRIENDS maxFriends), s1)
              else
                (case (case friendRequest of
                         Some fr \<Rightarrow>
                           if type fr = blocked then Inl (HTTPError UserBlockedYou 400)
                           else if type fr = friends then Inl (HTTPError AlreadyFriends 400)
                           else Inr (fr\<lparr>type := friends\<rparr>)
                       | None \<Rightarrow> Inr \<lparr>from_id = ident, to_id = me, type = incoming\<rparr>) of
                   Inl e \<Rightarrow> (Inl e, s1)
                 | Inr incoming_relationship \<Rightarrow>
                     (case (case relationship of
                              Some rel \<Rightarrow>
                                if type rel = outgoing then Inl (HTTPError AlreadySent 400)
                                else if type rel = blocked then Inl (HTTPError UnblockFirst 400)
                                else if type rel = friends then Inl (HTTPError AlreadyFriends 400)
                                else Inr (rel\<lparr>type := friends\<rparr>)
                            | None \<Rightarrow> Inr \<lparr>from_id = me, to_id = ident, type = outgoing\<rparr>) of
                        Inl e \<Rightarrow> (Inl e, s1)
                      | Inr outgoing_relationship \<Rightarrow>
                          (Inr 204,
                           emitEvent \<lparr>event = RELATIONSHIP_ADD, user_id = ident,
                                      data = incoming_relationship, should_notify = True\<rparr>
                             (emitEvent \<lparr>event = RELATIONSHIP_ADD, user_id = me,
                                         data = outgoing_relationship, should_notify = False\<rparr>
                                (Relationship_save outgoing_relationship
                                   (Relationship_save incoming_relationship s1)))))))"

text \<open>
  \<^verbatim>\<open>router.put("/:id")\<close>: the target is loaded first, then handed to
  \<open>updateRelationship\<close> with \<^verbatim>\<open>req.body.type ?? RelationshipType.friends\<close>.
\<close>

definition put_route ::
  "nat \<Rightarrow> snowflake \<Rightarrow> snowflake \<Rightarrow> RelationshipType option \<Rightarrow> Store \<Rightarrow> (error + nat) \<times> Store" where
  "put_route maxFriends me param_id body_type s0 =
     (case findOneOrFail param_id s0 of
        (None, s1) \<Rightarrow> (Inl EntityNotFound, s1)
      | (Some friend, s1) \<Rightarrow>
          updateRelationship maxFriends me friend
            (case body_type of None \<Rightarrow> friends | Some t \<Rightarrow> t) s1)"

text \<open>\<^verbatim>\<open>router.delete("/:id")\<close>.\<close>

definition delete_route :: "snowflake \<Rightarrow> snowflake \<Rightarrow> Store \<Rightarrow> (error + nat) \<times> Store" where
  "delete_route me ident s0 =
     (if ident = me then (Inl (HTTPError CantRemoveSelf 400), s0)
      else
        case findOneOrFail me s0 of
          (None, s1) \<Rightarrow> (Inl EntityNotFound, s1)
        | (Some user, s1) \<Rightarrow>
            (case findOneOrFail ident s1 of
               (None, s2) \<Rightarrow> (Inl EntityNotFound, s2)
             | (Some friend, s2) \<Rightarrow>
                 let relationship = find (\<lambda>x. to_id x = ident) (relationships user);
                     friendRequest = find (\<lambda>x. to_id x = me) (relationships friend)
                 in
                   (case relationship of
                     None \<Rightarrow> (Inl (HTTPError NotFriends 404), s2)
                   | Some rel \<Rightarrow>
                       if type rel = blocked then
                         (Inr 204,
                          emitEvent \<lparr>event = RELATIONSHIP_REMOVE, user_id = me,
                                     data = rel, should_notify = False\<rparr>
                            (Relationship_delete rel s2))
                       else
                         let s3 = (case friendRequest of
                                     Some fr \<Rightarrow>
                                       if type fr \<noteq> blocked
                                       then emitEvent \<lparr>event = RELATIONSHIP_REMOVE, user_id = ident,
                                                       data = fr, should_notify = False\<rparr>
                                              (Relationship_delete fr s2)
                                       else s2
                                   | None \<Rightarrow> s2)
                         in (Inr 204,
                             emitEvent \<lparr>event = RELATIONSHIP_REMOVE, user_id = me,
                                        data = rel, should_notify = False\<rparr>
                               (Relationship_delete rel s3)))))"

text \<open>The operations the spec names, as the routes that serve them.\<close>

definition requestOrAccept :: "nat \<Rightarrow> snowflake \<Rightarrow> snowflake \<Rightarrow> Store \<Rightarrow> (error + nat) \<times> Store" where
  "requestOrAccept maxFriends a b s = put_route maxFriends a b None s"

definition block :: "nat \<Rightarrow> snowflake \<Rightarrow> snowflake \<Rightarrow> Store \<Rightarrow> (error + nat) \<times> Store" where
  "block maxFriends a b s = put_route maxFriends a b (Some blocked) s"

definition remove :: "snowflake \<Rightarrow> snowflake \<Rightarrow> Store \<Rightarrow> (error + nat) \<times> Store" where
  "remove a b s = delete_route a b s"

text \<open>The edge a user holds toward another, as the routes look it up.\<close>

definition findEdge :: "Store \<Rightarrow> snowflake \<Rightarrow> snowflake \<Rightarrow> Relationship option" where
  "findEdge s owner other =
     find (\<lambda>x. to_id x = other) (filter (\<lambda>r. from_id r = owner) (table s))"

section \<open>Relationships: consistency and runs\<close>

text \<open>
  The invariants of the spec's data model on a table: at most one edge per ordered pair, and
  opposite a \<open>blocked\<close> edge nothing but a \<open>blocked\<close> edge (a block prunes the edge of
  the blocked user).
\<close>

definition pair_of :: "Relationship \<Rightarrow> snowflake \<times> snowflake" where
  "pair_of r = (from_id r, to_id r)"

definition unique_pairs :: "Relationship list \<Rightarrow> bool" where
  "unique_pairs tbl \<longleftrightarrow> distinct (map pair_of tbl)"

definition blocks_hidden :: "Relationship list \<Rightarrow> bool" where
  "blocks_hidden tbl \<longleftrightarrow>
     (\<forall>r \<in> set tbl. \<forall>r' \<in> set tbl.
        type r = blocked \<and> from_id r' = to_id r \<and> to_id r' = from_id r \<longrightarrow> type r' = blocked)"

definition consistent :: "Store \<Rightarrow> bool" where
  "consistent s \<longleftrightarrow> unique_pairs (table s) \<and> blocks_hidden (table s)"

text \<open>The requests a client can send, and a run of requests served one after the other.\<close>

datatype request =
    Put snowflake snowflake "RelationshipType option"
  | Delete snowflake snowflake

fun serve :: "nat \<Rightarrow> request \<Rightarrow> Store \<Rightarrow> (error + nat) \<times> Store" where
  "serve maxFriends (Put me target body_type) s = put_route maxFriends me target body_type s"
| "serve maxFriends (Delete me target) s = delete_route me target s"

fun run :: "nat \<Rightarrow> request list \<Rightarrow> Store \<Rightarrow> Store" where
  "run maxFriends [] s = s"
| "run maxFriends (r # rs) s = run maxFriends rs (snd (serve maxFriends r s))"

text \<open>
  The block of \<open>b\<close> by \<open>a\<close> stands: \<open>a\<close> holds a \<open>blocked\<close> edge toward \<open>b\<close>, and \<open>b\<close>
  holds no edge toward \<open>a\<close> or a \<open>blocked\<close> one.
\<close>

definition block_stands :: "Store \<Rightarrow> snowflake \<Rightarrow> snowflake \<Rightarrow> bool" where
  "block_stands s a b \<longleftrightarrow>
     (case findEdge s a b of Some r \<Rightarrow> type r = blocked | None \<Rightarrow> False) \<and>
     (case findEdge s b a of Some fr \<Rightarrow> type fr = blocked | None \<Rightarrow> True)"

text \<open>The row of an ordered pair in a table, as the routes look it up.\<close>

definition lookup :: "Relationship list \<Rightarrow> snowflake \<Rightarrow> snowflake \<Rightarrow> Relationship option" where
  "lookup tbl owner other = find (\<lambda>x. to_id x = other) (filter (\<lambda>r. from_id r = owner) tbl)"

section \<open>Example stores\<close>

definition store_friends :: Store where
  "store_friends =
     \<lparr>users = [''A'', ''B'', ''C''],
      table = [\<lparr>from_id = ''A'', to_id = ''B'', type = friends\<rparr>,
               \<lparr>from_id = ''B'', to_id = ''A'', type = friends\<rparr>],
      emitted = [], queries = []\<rparr>"

definition store_request :: Store where
  "store_request =
     \<lparr>users = [''A'', ''B'', ''C''],
      table = [\<lparr>from_id = ''B'', to_id = ''A'', type = outgoing\<rparr>,
               \<lparr>from_id = ''A'', to_id = ''B'', type = incoming\<rparr>],
      emitted = [], queries = []\<rparr>"

definition store_blocked_back :: Store where
  "store_blocked_back =
     \<lparr>users = [''A'', ''B''],
      table = [\<lparr>from_id = ''B'', to_id = ''A'', type = blocked\<rparr>],
      emitted = [], queries = []\<rparr>"

definition store_one_block :: Store where
  "store_one_block =
     \<lparr>users = [''A'', ''B'', ''C''],
      table = [\<lparr>from_id = ''A'', to_id = ''C'', type = blocked\<rparr>],
      emitted = [], queries = []\<rparr>"

definition store_full :: Store where
  "store_full =
     \<lparr>users = [''A'', ''B'', ''C''],
      table = [\<lparr>from_id = ''A'', to_id = ''C'', type = friends\<rparr>,
               \<lparr>from_id = ''C'', to_id = ''A'', type = friends\<rparr>],
      emitted = [], queries = []\<rparr>"

definition store_empty :: Store where
  "store_empty = \<lparr>users = [''A'', ''B''], table = [], emitted = [], queries = []\<rparr>"

section \<open>Registration: data model\<close>

text \<open>
  The route \<^verbatim>\<open>POST /auth/register\<close>. A JavaScript \<^verbatim>\<open>Date\<close> holds a time value in
  milliseconds since the epoch, or is invalid (\<^verbatim>\<open>NaN\<close>).
\<close>

datatype Date = Invalid_Date | Time int

text \<open>\<^verbatim>\<open>a > b\<close> on dates compares the time values; any comparison with \<^verbatim>\<open>NaN\<close> is false.\<close>

fun date_gt :: "Date \<Rightarrow> Date \<Rightarrow> bool" where
  "date_gt (Time a) (Time b) = (a > b)"
| "date_gt _ _ = False"

text \<open>
  The request body (\<^verbatim>\<open>RegisterSchema\<close>). An optional field that is absent is \<open>None\<close>;
  a string is truthy when it is present and not empty.
\<close>

record RegisterSchema =
  username :: string
  password :: "string option"
  consent :: bool
  email :: "string option"
  fingerprint :: "string option"
  invite :: "string option"
  date_of_birth :: "Date option"
  captcha_key :: "string option"

definition truthy :: "string option \<Rightarrow> bool" where
  "truthy v = (case v of None \<Rightarrow> False | Some s \<Rightarrow> s \<noteq> [])"

text \<open>\<^verbatim>\<open>Config.get().register\<close> and \<^verbatim>\<open>Config.get().security.captcha\<close>.\<close>

record RegisterConfig =
  email_required :: bool
  dateOfBirth_required :: bool
  dateOfBirth_minimum :: nat
  password_required :: bool
  disabled :: bool
  requireCaptcha :: bool
  requireInvite :: bool
  guestsRequireInvite :: bool
  allowNewRegistration :: bool
  allowMultipleAccounts :: bool
  blockProxies :: bool
  allowGuests :: bool

record CaptchaConfig =
  enabled :: bool
  sitekey :: "string option"
  service :: "string option"

text \<open>A row of the users table, as far as the route reads it.\<close>

record Account =
  account_id :: snowflake
  account_email :: "string option"

text \<open>
  What the route calls and does not define: \<^verbatim>\<open>adjustEmail\<close>, \<^verbatim>\<open>verifyCaptcha\<close> (success
  and error codes), \<^verbatim>\<open>isProxy(await IPAnalysis(ip))\<close>, the where-clause on the
  \<^verbatim>\<open>fingerprints\<close> column, \<^verbatim>\<open>bcrypt.hash(_, 12)\<close>, the user \<^verbatim>\<open>User.register\<close> builds
  or the error it throws, \<^verbatim>\<open>Invite.joinGuild\<close> (the error it throws, if any, given the
  users table it runs on), \<^verbatim>\<open>generateToken\<close>, and the clock: \<open>minimum_date n\<close> is the
  date \<^verbatim>\<open>minimum\<close> after \<^verbatim>\<open>new Date()\<close> and \<^verbatim>\<open>setFullYear(getFullYear() - n)\<close>.
\<close>

record Env =
  adjustEmail :: "string option \<Rightarrow> string option"
  verifyCaptcha :: "string \<Rightarrow> string \<Rightarrow> bool \<times> string list"
  isProxy :: "string \<Rightarrow> bool"
  matches_fingerprint :: "string option \<Rightarrow> Account \<Rightarrow> bool"
  bcrypt_hash :: "string \<Rightarrow> string"
  new_user :: "RegisterSchema \<Rightarrow> Account list \<Rightarrow> error + Account"
  joinGuild :: "Account list \<Rightarrow> snowflake \<Rightarrow> string \<Rightarrow> error option"
  generateToken :: "snowflake \<Rightarrow> string"
  minimum_date :: "nat \<Rightarrow> Date"

text \<open>What the route sends: the token, or the 400 answer that asks for a captcha.\<close>

datatype response =
    Token string
  | Captcha "string list" "string option" "string option"

section \<open>Registration: the route\<close>

text \<open>Lines 23 to 117: every check before the date of birth, in the order of the source.\<close>

definition checks_before_date_of_birth ::
  "Env \<Rightarrow> RegisterConfig \<Rightarrow> CaptchaConfig \<Rightarrow> string \<Rightarrow> RegisterSchema \<Rightarrow> Account list \<Rightarrow>
   (error + response) option" where
  "checks_before_date_of_birth env register captcha ip body accounts =
     (let email' = adjustEmail env (email body) in
      if \<not> allowNewRegistration register
      then Some (Inl (FieldErrors ''email'' ''REGISTRATION_DISABLED''))
      else if \<not> consent body
      then Some (Inl (FieldErrors ''consent'' ''CONSENT_REQUIRED''))
      else if disabled register
      then Some (Inl (FieldErrors ''email'' ''DISABLED''))
      else if \<not> allowGuests register
      then Some (Inl (FieldErrors ''email'' ''GUESTS_DISABLED''))
      else if requireCaptcha register \<and> enabled captcha \<and> \<not> truthy (captcha_key body)
      then Some (Inr (Captcha [''captcha-required''] (sitekey captcha) (service captcha)))
      else if requireCaptcha register \<and> enabled captcha \<and>
              \<not> fst (verifyCaptcha env (case captcha_key body of Some k \<Rightarrow> k | None \<Rightarrow> []) ip)
      then Some (Inr (Captcha
                  (snd (verifyCaptcha env (case captcha_key body of Some k \<Rightarrow> k | None \<Rightarrow> []) ip))
                  (sitekey captcha) (service captcha)))
      else if \<not> allowMultipleAccounts register \<and>
              find (matches_fingerprint env (fingerprint body)) accounts \<noteq> None
      then Some (Inl (FieldErrors ''email'' ''EMAIL_ALREADY_REGISTERED''))
      else if blockProxies register \<and> isProxy env ip
      then Some (Inl (HTTPError IpBlocked 400))
      else if truthy email'
      then (if find (\<lambda>u. account_email u = email') accounts \<noteq> None
            then Some (Inl (FieldErrors ''email'' ''EMAIL_ALREADY_REGISTERED''))
            else None)
      else if email_required register
      then Some (Inl (FieldErrors ''email'' ''BASE_TYPE_REQUIRED''))
      else None)"

text \<open>
  Lines 119 to 138. \<^verbatim>\<open>new Date(body.date_of_birth)\<close> of an absent date of birth is an
  invalid date.
\<close>

definition new_Date :: "Date option \<Rightarrow> Date" where
  "new_Date d = (case d of None \<Rightarrow> Invalid_Date | Some t \<Rightarrow> t)"

definition check_date_of_birth :: "Env \<Rightarrow> RegisterConfig \<Rightarrow> RegisterSchema \<Rightarrow> error option" where
  "check_date_of_birth env register body =
     (if dateOfBirth_required register \<and> date_of_birth body = None \<and> truthy (password body)
      then Some (FieldErrors ''date_of_birth'' ''BASE_TYPE_REQUIRED'')
      else if dateOfBirth_required register \<and> dateOfBirth_minimum register \<noteq> 0
      then (if date_gt (new_Date (date_of_birth body))
                       (minimum_date env (dateOfBirth_minimum register))
            then Some (FieldErrors ''date_of_birth'' ''DATE_OF_BIRTH_UNDERAGE'')
            else None)
      else None)"

text \<open>Lines 140 to 147: the password is hashed, or required.\<close>

definition check_password :: "RegisterConfig \<Rightarrow> RegisterSchema \<Rightarrow> error option" where
  "check_password register body =
     (if truthy (password body) then None
      else if password_required register
      then Some (FieldErrors ''password'' ''BASE_TYPE_REQUIRED'')
      else None)"

text \<open>
  Lines 149 to 154. \<^verbatim>\<open>register.email\<close> is the configuration object of the email
  section, hence truthy.
\<close>

definition register_email_truthy :: bool where
  "register_email_truthy = True"

definition check_invite :: "RegisterConfig \<Rightarrow> RegisterSchema \<Rightarrow> error option" where
  "check_invite register body =
     (if \<not> truthy (invite body) \<and>
         (requireInvite register \<or> (guestsRequireInvite register \<and> \<not> register_email_truthy))
      then Some (FieldErrors ''email'' ''INVITE_ONLY'')
      else None)"

text \<open>All the checks, lines 23 to 154: the first that fails, or \<open>None\<close> when all pass.\<close>

definition guards ::
  "Env \<Rightarrow> RegisterConfig \<Rightarrow> CaptchaConfig \<Rightarrow> string \<Rightarrow> RegisterSchema \<Rightarrow> Account list \<Rightarrow>
   (error + response) option" where
  "guards env register captcha ip body accounts =
     (case checks_before_date_of_birth env register captcha ip body accounts of
        Some r \<Rightarrow> Some r
      | None \<Rightarrow>
          (case check_date_of_birth env register body of
             Some e \<Rightarrow> Some (Inl e)
           | None \<Rightarrow>
               (case check_password register body of
                  Some e \<Rightarrow> Some (Inl e)
                | None \<Rightarrow>
                    (case check_invite register body of
                       Some e \<Rightarrow> Some (Inl e)
                     | None \<Rightarrow> None))))"

text \<open>The body as the checks leave it: the date of birth rebuilt, the password hashed.\<close>

definition checked_body :: "Env \<Rightarrow> RegisterConfig \<Rightarrow> RegisterSchema \<Rightarrow> RegisterSchema" where
  "checked_body env register body =
     (let body1 =
            (if \<not> (dateOfBirth_required register \<and> date_of_birth body = None \<and>
                    truthy (password body)) \<and>
                dateOfBirth_required register \<and> dateOfBirth_minimum register \<noteq> 0
             then body\<lparr>date_of_birth := Some (new_Date (date_of_birth body))\<rparr>
             else body)
      in case password body1 of
           Some p \<Rightarrow> if p \<noteq> [] then body1\<lparr>password := Some (bcrypt_hash env p)\<rparr> else body1
         | None \<Rightarrow> body1)"

text \<open>
  Modelled from the spec: \<^verbatim>\<open>User.register\<close> is defined outside the sources at hand. By
  the spec's \<^verbatim>\<open>UserDirectory.create(payload) -> User\<close> it stores a new user and returns
  it, or fails on a constraint violation; which user, and when it fails, is the environment's
  \<open>new_user\<close>.
\<close>

definition User_register ::
  "Env \<Rightarrow> RegisterSchema \<Rightarrow> Account list \<Rightarrow> error + (Account \<times> Account list)" where
  "User_register env body accounts =
     (case new_user env body accounts of
        Inl e \<Rightarrow> Inl e
      | Inr u \<Rightarrow> Inr (u, accounts @ [u]))"

text \<open>Lines 156 to 163: the account is created, the invite redeemed, the token sent.\<close>

definition create_and_join ::
  "Env \<Rightarrow> RegisterSchema \<Rightarrow> Account list \<Rightarrow> (error + response) \<times> Account list" where
  "create_and_join env body accounts =
     (case User_register env body accounts of
        Inl e \<Rightarrow> (Inl e, accounts)
      | Inr (user, accounts') \<Rightarrow>
          (case (case invite body of
                   Some code \<Rightarrow>
                     if code \<noteq> [] then joinGuild env accounts' (account_id user) code else None
                 | None \<Rightarrow> None) of
             Some e \<Rightarrow> (Inl e, accounts')
           | None \<Rightarrow> (Inr (Token (generateToken env (account_id user))), accounts')))"

text \<open>\<^verbatim>\<open>router.post("/")\<close>: the answer or the error thrown, and the users table afterwards.\<close>

definition register_route ::
  "Env \<Rightarrow> RegisterConfig \<Rightarrow> CaptchaConfig \<Rightarrow> string \<Rightarrow> RegisterSchema \<Rightarrow> Account list \<Rightarrow>
   (error + response) \<times> Account list" where
  "register_route env register captcha ip body accounts =
     (case guards env register captcha ip body accounts of
        Some r \<Rightarrow> (r, accounts)
      | None \<Rightarrow> create_and_join env (checked_body env register body) accounts)"

section \<open>Example registrations\<close>

definition env_example :: Env where
  "env_example =
     \<lparr>adjustEmail = (\<lambda>e. e),
      verifyCaptcha = (\<lambda>key ip. (True, [])),
      isProxy = (\<lambda>ip. False),
      matches_fingerprint = (\<lambda>f u. False),
      bcrypt_hash = (\<lambda>p. ''$2b$12$'' @ p),
      new_user = (\<lambda>body accounts. Inr \<lparr>account_id = ''1001'', account_email = email body\<rparr>),
      joinGuild = (\<lambda>accounts uid code.
                    if code = ''valid'' then None else Some (External ''Unknown Invite'')),
      generateToken = (\<lambda>uid. ''token.'' @ uid),
      minimum_date = (\<lambda>n. Time (2000000000000 - 31536000000 * int n))\<rparr>"

definition register_example :: RegisterConfig where
  "register_example =
     \<lparr>email_required = False, dateOfBirth_required = True, dateOfBirth_minimum = 13,
      password_required = False, disabled = False, requireCaptcha = True,
      requireInvite = False, guestsRequireInvite = True, allowNewRegistration = True,
      allowMultipleAccounts = True, blockProxies = True, allowGuests = True\<rparr>"

definition captcha_example :: CaptchaConfig where
  "captcha_example = \<lparr>enabled = False, sitekey = None, service = None\<rparr>"

definition body_no_consent :: RegisterSchema where
  "body_no_consent =
     \<lparr>username = ''x'', password = Some ''abc'', consent = False, email = Some ''x@gmail.com'',
      fingerprint = None, invite = None, date_of_birth = None, captcha_key = None\<rparr>"

definition body_born :: "int \<Rightarrow> RegisterSchema" where
  "body_born t =
     \<lparr>username = ''y'', password = Some ''secret'', consent = True, email = Some ''y@example.org'',
      fingerprint = None, invite = None, date_of_birth = Some (Time t), captcha_key = None\<rparr>"

definition body_invited :: RegisterSchema where
  "body_invited =
     \<lparr>username = ''z'', password = Some ''secret'', consent = True, email = Some ''z@example.org'',
      fingerprint = None, invite = Some ''expired'', date_of_birth = Some (Time 0),
      captcha_key = None\<rparr>"

definition body_guest :: RegisterSchema where
  "body_guest =
     \<lparr>username = ''guest'', password = None, consent = True, email = None,
      fingerprint = None, invite = None, date_of_birth = None, captcha_key = None\<rparr>"

section \<open>Lemmas about the store\<close>

lemmas route_eval =
  requestOrAccept_def block_def remove_def put_route_def delete_route_def updateRelationship_def
  findOneOrFail_def Relationship_save_def Relationship_delete_def emitEvent_def save_def
  delete_def same_pair_def findEdge_def Let_def

lemma findEdge_SomeD:
  "findEdge s a b = Some r \<Longrightarrow> from_id r = a \<and> to_id r = b \<and> r \<in> set (table s)"
  by (auto simp: findEdge_def find_Some_iff in_set_conv_nth dest!: nth_mem)

lemma findOneOrFail_user:
  "uid \<in> set (users s) \<Longrightarrow>
   findOneOrFail uid s =
     (Some \<lparr>id' = uid, relationships = filter (\<lambda>r. from_id r = uid) (table s)\<rparr>,
      s\<lparr>queries := queries s @ [uid]\<rparr>)"
  by (simp add: findOneOrFail_def)

lemma delete_route_users:
  assumes "a \<noteq> b" and "a \<in> set (users s)" and "b \<in> set (users s)"
  shows "delete_route a b s =
     (let s2 = s\<lparr>queries := queries s @ [a, b]\<rparr> in
      case findEdge s a b of
        None \<Rightarrow> (Inl (HTTPError NotFriends 404), s2)
      | Some rel \<Rightarrow>
          if type rel = blocked then
            (Inr 204, emitEvent \<lparr>event = RELATIONSHIP_REMOVE, user_id = a,
                                 data = rel, should_notify = False\<rparr>
                        (Relationship_delete rel s2))
          else
            let s3 = (case findEdge s b a of
                        Some fr \<Rightarrow>
                          if type fr \<noteq> blocked
                          then emitEvent \<lparr>event = RELATIONSHIP_REMOVE, user_id = b,
                                          data = fr, should_notify = False\<rparr>
                                 (Relationship_delete fr s2)
                          else s2
                      | None \<Rightarrow> s2)
            in (Inr 204, emitEvent \<lparr>event = RELATIONSHIP_REMOVE, user_id = a,
                                    data = rel, should_notify = False\<rparr>
                           (Relationship_delete rel s3)))"
  using assms
  unfolding delete_route_def findEdge_def
  by (simp add: findOneOrFail_user Let_def)

lemma findEdge_queries [simp]: "findEdge (s\<lparr>queries := q\<rparr>) a b = findEdge s a b"
  by (simp add: findEdge_def)

lemma findEdge_emitEvent [simp]: "findEdge (emitEvent e s) a b = findEdge s a b"
  by (simp add: findEdge_def emitEvent_def)

lemma find_filter_delete:
  "find (\<lambda>x. to_id x = b) (filter (\<lambda>x. from_id x = a) (delete r tbl)) =
     (if from_id r = a \<and> to_id r = b then None
      else find (\<lambda>x. to_id x = b) (filter (\<lambda>x. from_id x = a) tbl))"
  by (induction tbl) (auto simp: delete_def same_pair_def)

lemma findEdge_delete:
  "findEdge (Relationship_delete r s) a b =
     (if from_id r = a \<and> to_id r = b then None else findEdge s a b)"
  by (simp add: findEdge_def Relationship_delete_def find_filter_delete)

text \<open>
  C5. For distinct users \<open>a\<close> and \<open>b\<close> that are friends on both sides, \<open>remove a b\<close>
  answers 204, deletes \<open>a\<close>'s edge toward \<open>b\<close> and \<open>b\<close>'s edge toward \<open>a\<close>, changes no
  other row, and emits exactly two events: one \<open>RELATIONSHIP_REMOVE\<close> to \<open>b\<close> carrying
  \<open>b\<close>'s own deleted edge and one to \<open>a\<close> carrying \<open>a\<close>'s own deleted edge. When \<open>a\<close> holds
  no edge toward \<open>b\<close>, \<open>remove a b\<close> fails with the 404 error "You are not friends with the
  user" and writes and emits nothing.
\<close>

theorem remove_friends_or_unrelated:
  assumes "a \<noteq> b" and "a \<in> set (users s)" and "b \<in> set (users s)"
  shows "(findEdge s a b = Some rel \<and> type rel = friends \<and>
          findEdge s b a = Some fr \<and> type fr = friends \<longrightarrow>
            fst (remove a b s) = Inr 204 \<and>
            findEdge (snd (remove a b s)) a b = None \<and>
            findEdge (snd (remove a b s)) b a = None \<and>
            table (snd (remove a b s)) = delete rel (delete fr (table s)) \<and>
            emitted (snd (remove a b s)) = emitted s @
              [\<lparr>event = RELATIONSHIP_REMOVE, user_id = b, data = fr, should_notify = False\<rparr>,
               \<lparr>event = RELATIONSHIP_REMOVE, user_id = a, data = rel, should_notify = False\<rparr>] \<and>
            from_id fr = b \<and> to_id fr = a \<and> from_id rel = a \<and> to_id rel = b) \<and>
         (findEdge s a b = None \<longrightarrow>
            fst (remove a b s) = Inl (HTTPError NotFriends 404) \<and>
            table (snd (remove a b s)) = table s \<and>
            emitted (snd (remove a b s)) = emitted s)"
proof (intro conjI impI)
  assume h: "findEdge s a b = None"
  then have "remove a b s = (Inl (HTTPError NotFriends 404), s\<lparr>queries := queries s @ [a, b]\<rparr>)"
    using assms by (simp add: remove_def delete_route_users)
  then show "fst (remove a b s) = Inl (HTTPError NotFriends 404)"
    "table (snd (remove a b s)) = table s" "emitted (snd (remove a b s)) = emitted s"
    by simp_all
next
  assume h: "findEdge s a b = Some rel \<and> type rel = friends \<and>
          findEdge s b a = Some fr \<and> type fr = friends"
  then have k: "from_id fr = b" "to_id fr = a" "from_id rel = a" "to_id rel = b"
    by (auto dest: findEdge_SomeD)
  from k show "from_id fr = b" "to_id fr = a" "from_id rel = a" "to_id rel = b" by simp_all
  have r: "remove a b s = (Inr 204,
     emitEvent \<lparr>event = RELATIONSHIP_REMOVE, user_id = a, data = rel, should_notify = False\<rparr>
       (Relationship_delete rel
         (emitEvent \<lparr>event = RELATIONSHIP_REMOVE, user_id = b, data = fr, should_notify = False\<rparr>
           (Relationship_delete fr (s\<lparr>queries := queries s @ [a, b]\<rparr>)))))"
    using assms h by (simp add: remove_def delete_route_users)
  show "fst (remove a b s) = Inr 204" by (simp add: r)
  show "table (snd (remove a b s)) = delete rel (delete fr (table s))"
    by (simp add: r emitEvent_def Relationship_delete_def)
  show "emitted (snd (remove a b s)) = emitted s @
              [\<lparr>event = RELATIONSHIP_REMOVE, user_id = b, data = fr, should_notify = False\<rparr>,
               \<lparr>event = RELATIONSHIP_REMOVE, user_id = a, data = rel, should_notify = False\<rparr>]"
    by (simp add: r emitEvent_def Relationship_delete_def)
  show "findEdge (snd (remove a b s)) a b = None"
    using k by (simp add: r findEdge_delete)
  show "findEdge (snd (remove a b s)) b a = None"
    using k by (simp add: r findEdge_delete)
qed

theorem remove_friends_or_unrelated_witness:
  "fst (remove ''A'' ''B'' store_friends) = Inr 204 \<and>
   table (snd (remove ''A'' ''B'' store_friends)) = [] \<and>
   emitted (snd (remove ''A'' ''B'' store_friends)) =
     [\<lparr>event = RELATIONSHIP_REMOVE, user_id = ''B'',
       data = \<lparr>from_id = ''B'', to_id = ''A'', type = friends\<rparr>, should_notify = False\<rparr>,
      \<lparr>event = RELATIONSHIP_REMOVE, user_id = ''A'',
       data = \<lparr>from_id = ''A'', to_id = ''B'', type = friends\<rparr>, should_notify = False\<rparr>] \<and>
   fst (remove ''A'' ''C'' store_friends) = Inl (HTTPError NotFriends 404)"
proof -
  have u: "''A'' \<in> set (users store_friends)" "''B'' \<in> set (users store_friends)"
    "''C'' \<in> set (users store_friends)"
    by (simp_all add: store_friends_def)
  have e1: "findEdge store_friends ''A'' ''B'' = Some \<lparr>from_id = ''A'', to_id = ''B'', type = friends\<rparr>"
    by (simp add: store_friends_def findEdge_def)
  have e2: "findEdge store_friends ''B'' ''A'' = Some \<lparr>from_id = ''B'', to_id = ''A'', type = friends\<rparr>"
    by (simp add: store_friends_def findEdge_def)
  have e3: "findEdge store_friends ''A'' ''C'' = None"
    by (simp add: store_friends_def findEdge_def)
  have d: "delete \<lparr>from_id = ''A'', to_id = ''B'', type = friends\<rparr>
            (delete \<lparr>from_id = ''B'', to_id = ''A'', type = friends\<rparr> (table store_friends)) = []"
    by (simp add: store_friends_def delete_def same_pair_def)
  have n: "emitted store_friends = []" by (simp add: store_friends_def)
  have ab: "''A'' \<noteq> ''B''" "''A'' \<noteq> ''C''" by simp_all
  from remove_friends_or_unrelated [OF ab(1) u(1) u(2),
          of "\<lparr>from_id = ''A'', to_id = ''B'', type = friends\<rparr>"
             "\<lparr>from_id = ''B'', to_id = ''A'', type = friends\<rparr>"]
       remove_friends_or_unrelated [OF ab(2) u(1) u(3)]
  show ?thesis
    by (simp add: e1 e2 e3 d n)
qed

lemma put_route_users:
  assumes "a \<noteq> b" and "a \<in> set (users s)" and "b \<in> set (users s)"
  shows "put_route maxFriends a b body_type s =
     (let s1 = s\<lparr>queries := queries s @ [b, a]\<rparr> in
      if (case body_type of None \<Rightarrow> friends | Some t \<Rightarrow> t) = blocked then
        (case (case findEdge s a b of
                 Some rel \<Rightarrow>
                   if type rel = blocked then Inl (HTTPError AlreadyBlocked 400)
                   else Inr (rel\<lparr>type := blocked\<rparr>)
               | None \<Rightarrow> Inr \<lparr>from_id = a, to_id = b, type = blocked\<rparr>) of
           Inl e \<Rightarrow> (Inl e, s1)
         | Inr rel \<Rightarrow>
             let s2 = Relationship_save rel s1;
                 s3 = (case findEdge s b a of
                         Some fr \<Rightarrow>
                           if type fr \<noteq> blocked
                           then emitEvent \<lparr>event = RELATIONSHIP_REMOVE, user_id = b,
                                           data = fr, should_notify = False\<rparr>
                                  (Relationship_delete fr s2)
                           else s2
                       | None \<Rightarrow> s2)
             in (Inr 204,
                 emitEvent \<lparr>event = RELATIONSHIP_ADD, user_id = a,
                            data = rel, should_notify = False\<rparr> s3))
      else if length (filter (\<lambda>r. from_id r = a) (table s)) \<ge> maxFriends
      then (Inl (MAXIMUM_FRIENDS maxFriends), s1)
      else
        (case (case findEdge s b a of
                 Some fr \<Rightarrow>
                   if type fr = blocked then Inl (HTTPError UserBlockedYou 400)
                   else if type fr = friends then Inl (HTTPError AlreadyFriends 400)
                   else Inr (fr\<lparr>type := friends\<rparr>)
               | None \<Rightarrow> Inr \<lparr>from_id = b, to_id = a, type = incoming\<rparr>) of
           Inl e \<Rightarrow> (Inl e, s1)
         | Inr incoming_relationship \<Rightarrow>
             (case (case findEdge s a b of
                      Some rel \<Rightarrow>
                        if type rel = outgoing then Inl (HTTPError AlreadySent 400)
                        else if type rel = blocked then Inl (HTTPError UnblockFirst 400)
                        else if type rel = friends then Inl (HTTPError AlreadyFriends 400)
                        else Inr (rel\<lparr>type := friends\<rparr>)
                    | None \<Rightarrow> Inr \<lparr>from_id = a, to_id = b, type = outgoing\<rparr>) of
                Inl e \<Rightarrow> (Inl e, s1)
              | Inr outgoing_relationship \<Rightarrow>
                  (Inr 204,
                   emitEvent \<lparr>event = RELATIONSHIP_ADD, user_id = b,
                              data = incoming_relationship, should_notify = True\<rparr>
                     (emitEvent \<lparr>event = RELATIONSHIP_ADD, user_id = a,
                                 data = outgoing_relationship, should_notify = False\<rparr>
                        (Relationship_save outgoing_relationship
                           (Relationship_save incoming_relationship s1)))))))"
  using assms
  unfolding put_route_def updateRelationship_def findEdge_def
  by (simp add: findOneOrFail_user Let_def)

lemma find_filter_map_save:
  "find (\<lambda>x. to_id x = b) (filter (\<lambda>x. from_id x = a)
      (map (\<lambda>x. if same_pair x r then r else x) tbl)) =
     (if from_id r = a \<and> to_id r = b
      then (if \<exists>x \<in> set tbl. same_pair x r then Some r else None)
      else find (\<lambda>x. to_id x = b) (filter (\<lambda>x. from_id x = a) tbl))"
  by (induction tbl) (auto simp: same_pair_def)

lemma find_append:
  "find P (xs @ ys) = (case find P xs of Some x \<Rightarrow> Some x | None \<Rightarrow> find P ys)"
  by (induction xs) auto

lemma find_filter_None_iff:
  "find (\<lambda>x. to_id x = b) (filter (\<lambda>x. from_id x = a) tbl) = None \<longleftrightarrow>
     (\<forall>x \<in> set tbl. \<not> (from_id x = a \<and> to_id x = b))"
  by (auto simp: find_None_iff)

lemma find_filter_save:
  "find (\<lambda>x. to_id x = b) (filter (\<lambda>x. from_id x = a) (save r tbl)) =
     (if from_id r = a \<and> to_id r = b then Some r
      else find (\<lambda>x. to_id x = b) (filter (\<lambda>x. from_id x = a) tbl))"
proof (cases "\<exists>x \<in> set tbl. same_pair x r")
  case True
  then show ?thesis
    by (simp add: save_def find_filter_map_save)
next
  case False
  then have s: "save r tbl = tbl @ [r]"
    by (simp add: save_def)
  show ?thesis
  proof (cases "from_id r = a \<and> to_id r = b")
    case True
    with False have "find (\<lambda>x. to_id x = b) (filter (\<lambda>x. from_id x = a) tbl) = None"
      by (auto simp: find_filter_None_iff same_pair_def)
    with True show ?thesis
      by (simp add: s find_append)
  next
    case False
    then show ?thesis
      by (auto simp add: s find_append split: option.splits)
  qed
qed

lemma findEdge_save:
  "findEdge (Relationship_save r s) a b =
     (if from_id r = a \<and> to_id r = b then Some r else findEdge s a b)"
  by (simp add: findEdge_def Relationship_save_def find_filter_save)

lemma blocks_hiddenD:
  "blocks_hidden tbl \<Longrightarrow> r \<in> set tbl \<Longrightarrow> r' \<in> set tbl \<Longrightarrow> type r = blocked \<Longrightarrow>
   from_id r' = to_id r \<Longrightarrow> to_id r' = from_id r \<Longrightarrow> type r' = blocked"
  unfolding blocks_hidden_def by (drule bspec, assumption, drule bspec, assumption, simp)

lemma consistent_not_blocked:
  assumes "consistent s" and "findEdge s b a = Some fr" and "type fr \<noteq> blocked"
    and "findEdge s a b = Some rel"
  shows "type rel \<noteq> blocked"
proof
  assume b: "type rel = blocked"
  from assms(2) have f: "fr \<in> set (table s)" "from_id fr = b" "to_id fr = a"
    by (simp_all add: findEdge_SomeD)
  from assms(4) have r: "rel \<in> set (table s)" "from_id rel = a" "to_id rel = b"
    by (simp_all add: findEdge_SomeD)
  from assms(1) have "blocks_hidden (table s)"
    by (simp add: consistent_def)
  from blocks_hiddenD [OF this r(1) f(1) b] f r have "type fr = blocked"
    by simp
  with assms(3) show False by simp
qed

text \<open>
  C3. In a consistent store (at most one edge per ordered pair, and no edge facing a
  \<open>blocked\<close> edge other than a \<open>blocked\<close> one), for distinct users \<open>a\<close> and \<open>b\<close> where
  \<open>b\<close> holds an edge \<open>fr\<close> toward \<open>a\<close> that is not \<open>blocked\<close>, \<open>block a b\<close> answers 204,
  leaves \<open>a\<close> with a \<open>blocked\<close> edge toward \<open>b\<close>, leaves \<open>b\<close> with no edge toward \<open>a\<close>, and
  emits exactly two events: one \<open>RELATIONSHIP_REMOVE\<close> to \<open>b\<close> carrying \<open>b\<close>'s deleted edge,
  then one \<open>RELATIONSHIP_ADD\<close> to \<open>a\<close> carrying the blocked edge.
\<close>

theorem block_prunes_reverse_edge:
  assumes "consistent s" and "a \<noteq> b" and "a \<in> set (users s)" and "b \<in> set (users s)"
    and "findEdge s b a = Some fr" and "type fr \<noteq> blocked"
  shows "fst (block maxFriends a b s) = Inr 204 \<and>
         findEdge (snd (block maxFriends a b s)) a b =
           Some \<lparr>from_id = a, to_id = b, type = blocked\<rparr> \<and>
         findEdge (snd (block maxFriends a b s)) b a = None \<and>
         from_id fr = b \<and> to_id fr = a \<and>
         emitted (snd (block maxFriends a b s)) = emitted s @
           [\<lparr>event = RELATIONSHIP_REMOVE, user_id = b, data = fr, should_notify = False\<rparr>,
            \<lparr>event = RELATIONSHIP_ADD, user_id = a,
             data = \<lparr>from_id = a, to_id = b, type = blocked\<rparr>, should_notify = False\<rparr>]"
proof -
  let ?r = "\<lparr>from_id = a, to_id = b, type = blocked\<rparr>"
  let ?s1 = "s\<lparr>queries := queries s @ [b, a]\<rparr>"
  from assms(5) have k: "from_id fr = b" "to_id fr = a"
    by (auto dest: findEdge_SomeD)
  have rel: "(case findEdge s a b of
                 Some rel \<Rightarrow>
                   if type rel = blocked then Inl (HTTPError AlreadyBlocked 400)
                   else Inr (rel\<lparr>type := blocked\<rparr>)
               | None \<Rightarrow> Inr ?r) = Inr ?r"
  proof (cases "findEdge s a b")
    case None
    then show ?thesis by simp
  next
    case (Some rel)
    then have "type rel \<noteq> blocked"
      using consistent_not_blocked [OF assms(1) assms(5) assms(6)] by simp
    moreover from Some have "from_id rel = a" "to_id rel = b"
      by (auto dest: findEdge_SomeD)
    ultimately show ?thesis using Some by simp
  qed
  have r: "block maxFriends a b s = (Inr 204,
      emitEvent \<lparr>event = RELATIONSHIP_ADD, user_id = a, data = ?r, should_notify = False\<rparr>
        (emitEvent \<lparr>event = RELATIONSHIP_REMOVE, user_id = b, data = fr, should_notify = False\<rparr>
          (Relationship_delete fr (Relationship_save ?r ?s1))))"
    unfolding block_def put_route_users [OF assms(2) assms(3) assms(4)]
    using assms(5) assms(6) by (simp add: rel Let_def)
  have "findEdge (snd (block maxFriends a b s)) a b = Some ?r"
    using k assms(2) by (simp add: r findEdge_delete findEdge_save)
  moreover have "findEdge (snd (block maxFriends a b s)) b a = None"
    using k by (simp add: r findEdge_delete)
  moreover have "emitted (snd (block maxFriends a b s)) = emitted s @
           [\<lparr>event = RELATIONSHIP_REMOVE, user_id = b, data = fr, should_notify = False\<rparr>,
            \<lparr>event = RELATIONSHIP_ADD, user_id = a, data = ?r, should_notify = False\<rparr>]"
    by (simp add: r emitEvent_def Relationship_delete_def Relationship_save_def)
  ultimately show ?thesis
    using k by (simp add: r)
qed

theorem block_prunes_reverse_edge_witness:
  "fst (block 10 ''A'' ''B'' store_request) = Inr 204 \<and>
   findEdge (snd (block 10 ''A'' ''B'' store_request)) ''A'' ''B'' =
     Some \<lparr>from_id = ''A'', to_id = ''B'', type = blocked\<rparr> \<and>
   findEdge (snd (block 10 ''A'' ''B'' store_request)) ''B'' ''A'' = None \<and>
   emitted (snd (block 10 ''A'' ''B'' store_request)) =
     [\<lparr>event = RELATIONSHIP_REMOVE, user_id = ''B'',
       data = \<lparr>from_id = ''B'', to_id = ''A'', type = outgoing\<rparr>, should_notify = False\<rparr>,
      \<lparr>event = RELATIONSHIP_ADD, user_id = ''A'',
       data = \<lparr>from_id = ''A'', to_id = ''B'', type = blocked\<rparr>, should_notify = False\<rparr>]"
proof -
  have c: "consistent store_request"
    by (simp add: consistent_def unique_pairs_def blocks_hidden_def pair_of_def store_request_def)
  have u: "''A'' \<in> set (users store_request)" "''B'' \<in> set (users store_request)"
    by (simp_all add: store_request_def)
  have e: "findEdge store_request ''B'' ''A'' = Some \<lparr>from_id = ''B'', to_id = ''A'', type = outgoing\<rparr>"
    by (simp add: store_request_def findEdge_def)
  have t: "type \<lparr>from_id = ''B'', to_id = ''A'', type = outgoing\<rparr> \<noteq> blocked" by simp
  have ab: "''A'' \<noteq> ''B''" by simp
  have n: "emitted store_request = []" by (simp add: store_request_def)
  from block_prunes_reverse_edge [OF c ab u e t, of 10] show ?thesis
    by (simp add: n)
qed

subsection \<open>Consistency is preserved by every route\<close>

lemma pair_of_replace: "pair_of (if same_pair x r then r else x) = pair_of x"
  by (simp add: pair_of_def same_pair_def)

lemma unique_pairs_save: "unique_pairs tbl \<Longrightarrow> unique_pairs (save r tbl)"
proof (cases "\<exists>x \<in> set tbl. same_pair x r")
  case True
  assume "unique_pairs tbl"
  moreover have "map pair_of (map (\<lambda>x. if same_pair x r then r else x) tbl) = map pair_of tbl"
    by (simp add: pair_of_replace comp_def)
  ultimately show ?thesis
    using True by (simp add: unique_pairs_def save_def del: map_map)
next
  case False
  assume "unique_pairs tbl"
  moreover from False have "pair_of r \<notin> pair_of ` set tbl"
    by (auto simp: pair_of_def same_pair_def)
  ultimately show ?thesis
    using False by (simp add: unique_pairs_def save_def)
qed

lemma unique_pairs_delete: "unique_pairs tbl \<Longrightarrow> unique_pairs (delete r tbl)"
  by (simp add: unique_pairs_def delete_def distinct_map_filter)

lemma set_delete_subset: "set (delete r tbl) \<subseteq> set tbl"
  by (auto simp: delete_def)

lemma blocks_hidden_subset:
  "blocks_hidden tbl \<Longrightarrow> set tbl' \<subseteq> set tbl \<Longrightarrow> blocks_hidden tbl'"
  unfolding blocks_hidden_def by (meson subsetD)

lemma unique_find:
  "unique_pairs tbl \<Longrightarrow> r \<in> set tbl \<Longrightarrow>
   find (\<lambda>x. to_id x = to_id r) (filter (\<lambda>x. from_id x = from_id r) tbl) = Some r"
proof (induction tbl)
  case Nil
  then show ?case by simp
next
  case (Cons x xs)
  show ?case
  proof (cases "x = r")
    case True
    then show ?thesis by simp
  next
    case False
    with Cons.prems have r: "r \<in> set xs" by simp
    then have "pair_of r \<in> pair_of ` set xs" by simp
    moreover from Cons.prems have "pair_of x \<notin> pair_of ` set xs" "unique_pairs xs"
      by (simp_all add: unique_pairs_def)
    ultimately have "pair_of x \<noteq> pair_of r" by auto
    then have "\<not> (from_id x = from_id r \<and> to_id x = to_id r)"
      by (simp add: pair_of_def)
    with Cons.IH [OF \<open>unique_pairs xs\<close> r] show ?thesis by auto
  qed
qed

lemma findEdge_unique:
  "unique_pairs (table s) \<Longrightarrow> r \<in> set (table s) \<Longrightarrow> findEdge s (from_id r) (to_id r) = Some r"
  by (simp add: findEdge_def unique_find)

lemma findEdge_lookup: "findEdge s a b = lookup (table s) a b"
  by (simp add: findEdge_def lookup_def)

lemma lookup_save:
  "lookup (save r tbl) a b = (if from_id r = a \<and> to_id r = b then Some r else lookup tbl a b)"
  by (simp add: lookup_def find_filter_save)

lemma lookup_delete:
  "lookup (delete r tbl) a b = (if from_id r = a \<and> to_id r = b then None else lookup tbl a b)"
  by (simp add: lookup_def find_filter_delete)

lemma lookup_SomeD:
  "lookup tbl a b = Some r \<Longrightarrow> from_id r = a \<and> to_id r = b \<and> r \<in> set tbl"
  by (auto simp: lookup_def find_Some_iff in_set_conv_nth dest!: nth_mem)

lemma lookup_unique:
  "unique_pairs tbl \<Longrightarrow> r \<in> set tbl \<Longrightarrow> lookup tbl (from_id r) (to_id r) = Some r"
  by (simp add: lookup_def unique_find)

lemma blocks_hidden_lookupD:
  assumes "blocks_hidden tbl" and "lookup tbl a b = Some r" and "type r = blocked"
    and "lookup tbl b a = Some r'"
  shows "type r' = blocked"
proof -
  from assms(2) have r: "from_id r = a" "to_id r = b" "r \<in> set tbl"
    by (simp_all add: lookup_SomeD)
  from assms(4) have r': "from_id r' = b" "to_id r' = a" "r' \<in> set tbl"
    by (simp_all add: lookup_SomeD)
  from blocks_hiddenD [OF assms(1) r(3) r'(3) assms(3)] r r' show ?thesis by simp
qed

lemma blocks_hidden_lookupI:
  assumes u: "unique_pairs tbl"
    and h: "\<And>a b r r'. lookup tbl a b = Some r \<Longrightarrow> type r = blocked \<Longrightarrow>
              lookup tbl b a = Some r' \<Longrightarrow> type r' = blocked"
  shows "blocks_hidden tbl"
  unfolding blocks_hidden_def
proof (intro ballI impI)
  fix r r'
  assume r: "r \<in> set tbl" and r': "r' \<in> set tbl"
    and c: "type r = blocked \<and> from_id r' = to_id r \<and> to_id r' = from_id r"
  from lookup_unique [OF u r] have 1: "lookup tbl (from_id r) (to_id r) = Some r" .
  from lookup_unique [OF u r'] c have 2: "lookup tbl (to_id r) (from_id r) = Some r'" by simp
  from h [OF 1 _ 2] c show "type r' = blocked" by simp
qed

lemma blocks_hidden_block_keep:
  assumes u: "unique_pairs tbl" and h: "blocks_hidden tbl"
    and r: "from_id r = a" "to_id r = b" "type r = blocked" and ab: "a \<noteq> b"
    and fr: "\<And>fr. lookup tbl b a = Some fr \<Longrightarrow> type fr = blocked"
  shows "blocks_hidden (save r tbl)"
proof (rule blocks_hidden_lookupI [OF unique_pairs_save [OF u]])
  fix x y q q'
  assume 1: "lookup (save r tbl) x y = Some q" and 2: "type q = blocked"
    and 3: "lookup (save r tbl) y x = Some q'"
  show "type q' = blocked"
  proof (cases "x = a \<and> y = b")
    case True
    with 3 r ab have "lookup tbl b a = Some q'" by (simp add: lookup_save)
    then show ?thesis by (rule fr)
  next
    case xy: False
    show ?thesis
    proof (cases "y = a \<and> x = b")
      case True
      with 3 r show ?thesis by (simp add: lookup_save)
    next
      case False
      with xy 1 3 r have "lookup tbl x y = Some q" "lookup tbl y x = Some q'"
        by (auto simp: lookup_save split: if_splits)
      from blocks_hidden_lookupD [OF h this(1) 2 this(2)] show ?thesis .
    qed
  qed
qed

lemma blocks_hidden_block_prune:
  assumes u: "unique_pairs tbl" and h: "blocks_hidden tbl"
    and r: "from_id r = a" "to_id r = b" "type r = blocked" and ab: "a \<noteq> b"
    and fr: "from_id fr = b" "to_id fr = a"
  shows "blocks_hidden (delete fr (save r tbl))"
proof (rule blocks_hidden_lookupI [OF unique_pairs_delete [OF unique_pairs_save [OF u]]])
  fix x y q q'
  assume 1: "lookup (delete fr (save r tbl)) x y = Some q" and 2: "type q = blocked"
    and 3: "lookup (delete fr (save r tbl)) y x = Some q'"
  show "type q' = blocked"
  proof (cases "x = a \<and> y = b")
    case True
    with 3 fr show ?thesis by (simp add: lookup_delete)
  next
    case xy: False
    show ?thesis
    proof (cases "y = a \<and> x = b")
      case True
      with 1 fr show ?thesis by (simp add: lookup_delete)
    next
      case False
      with xy 1 3 r fr have "lookup tbl x y = Some q" "lookup tbl y x = Some q'"
        by (auto simp: lookup_save lookup_delete split: if_splits)
      from blocks_hidden_lookupD [OF h this(1) 2 this(2)] show ?thesis .
    qed
  qed
qed

lemma blocks_hidden_request:
  assumes u: "unique_pairs tbl" and h: "blocks_hidden tbl"
    and i: "from_id inc = b" "to_id inc = a" "type inc \<noteq> blocked"
    and out: "from_id out = a" "to_id out = b" "type out \<noteq> blocked" and ab: "a \<noteq> b"
  shows "blocks_hidden (save out (save inc tbl))"
proof (rule blocks_hidden_lookupI [OF unique_pairs_save [OF unique_pairs_save [OF u]]])
  fix x y q q'
  assume 1: "lookup (save out (save inc tbl)) x y = Some q" and 2: "type q = blocked"
    and 3: "lookup (save out (save inc tbl)) y x = Some q'"
  show "type q' = blocked"
  proof (cases "x = a \<and> y = b")
    case True
    with 1 2 out show ?thesis by (simp add: lookup_save)
  next
    case xy: False
    show ?thesis
    proof (cases "y = a \<and> x = b")
      case True
      with ab i out have "lookup (save out (save inc tbl)) x y = Some inc"
        by (simp add: lookup_save)
      with 1 2 i show ?thesis by simp
    next
      case False
      with xy 1 3 i out have "lookup tbl x y = Some q" "lookup tbl y x = Some q'"
        by (auto simp: lookup_save split: if_splits)
      from blocks_hidden_lookupD [OF h this(1) 2 this(2)] show ?thesis .
    qed
  qed
qed

lemma put_route_no_users:
  "\<not> (a \<noteq> b \<and> a \<in> set (users s) \<and> b \<in> set (users s)) \<Longrightarrow>
   table (snd (put_route maxFriends a b body_type s)) = table s \<and>
   emitted (snd (put_route maxFriends a b body_type s)) = emitted s \<and>
   (\<exists>e. fst (put_route maxFriends a b body_type s) = Inl e)"
  by (auto simp: put_route_def updateRelationship_def findOneOrFail_def)

lemma delete_route_no_users:
  "\<not> (a \<noteq> b \<and> a \<in> set (users s) \<and> b \<in> set (users s)) \<Longrightarrow>
   table (snd (delete_route a b s)) = table s \<and>
   emitted (snd (delete_route a b s)) = emitted s \<and>
   (\<exists>e. fst (delete_route a b s) = Inl e)"
  by (auto simp: delete_route_def findOneOrFail_def)

lemma consistent_put_route:
  assumes c: "consistent s"
  shows "consistent (snd (put_route maxFriends a b body_type s))"
proof (cases "a \<noteq> b \<and> a \<in> set (users s) \<and> b \<in> set (users s)")
  case False
  from put_route_no_users [OF False] c show ?thesis
    by (simp add: consistent_def)
next
  case True
  then have ab: "a \<noteq> b" and ua: "a \<in> set (users s)" and ub: "b \<in> set (users s)"
    by simp_all
  note pr = put_route_users [OF ab ua ub, of maxFriends body_type]
  from c have u: "unique_pairs (table s)" and h: "blocks_hidden (table s)"
    by (simp_all add: consistent_def)
  let ?s1 = "s\<lparr>queries := queries s @ [b, a]\<rparr>"
  let ?ty = "case body_type of None \<Rightarrow> friends | Some t \<Rightarrow> t"
  show ?thesis
  proof (cases "?ty = blocked")
    case blk: True
    let ?X = "case findEdge s a b of
                 Some rel \<Rightarrow>
                   if type rel = blocked then Inl (HTTPError AlreadyBlocked 400)
                   else Inr (rel\<lparr>type := blocked\<rparr>)
               | None \<Rightarrow> Inr \<lparr>from_id = a, to_id = b, type = blocked\<rparr>"
    show ?thesis
    proof (cases ?X)
      case (Inl e)
      with blk have "put_route maxFriends a b body_type s = (Inl e, ?s1)"
        by (simp add: pr)
      with c show ?thesis by (simp add: consistent_def)
    next
      case (Inr r)
      then have r: "from_id r = a" "to_id r = b" "type r = blocked"
        by (auto split: option.splits if_splits dest: findEdge_SomeD)
      show ?thesis
      proof (cases "findEdge s b a")
        case None
        with blk Inr have "table (snd (put_route maxFriends a b body_type s)) = save r (table s)"
          by (simp add: pr emitEvent_def Relationship_save_def)
        moreover from None have "\<And>fr. lookup (table s) b a = Some fr \<Longrightarrow> type fr = blocked"
          by (simp add: findEdge_lookup)
        ultimately show ?thesis
          using blocks_hidden_block_keep [OF u h r ab] unique_pairs_save [OF u]
          by (simp add: consistent_def)
      next
        case (Some fr)
        show ?thesis
        proof (cases "type fr = blocked")
          case True
          with blk Inr Some
          have "table (snd (put_route maxFriends a b body_type s)) = save r (table s)"
            by (simp add: pr emitEvent_def Relationship_save_def)
          moreover from Some True
          have "\<And>fr. lookup (table s) b a = Some fr \<Longrightarrow> type fr = blocked"
            by (simp add: findEdge_lookup)
          ultimately show ?thesis
            using blocks_hidden_block_keep [OF u h r ab] unique_pairs_save [OF u]
            by (simp add: consistent_def)
        next
          case False
          with blk Inr Some
          have "table (snd (put_route maxFriends a b body_type s)) = delete fr (save r (table s))"
            by (simp add: pr emitEvent_def Relationship_save_def Relationship_delete_def)
          moreover from Some have "from_id fr = b" "to_id fr = a"
            by (simp_all add: findEdge_SomeD)
          ultimately show ?thesis
            using blocks_hidden_block_prune [OF u h r ab]
              unique_pairs_delete [OF unique_pairs_save [OF u]]
            by (simp add: consistent_def)
        qed
      qed
    qed
  next
    case req: False
    let ?Y = "case findEdge s b a of
                 Some fr \<Rightarrow>
                   if type fr = blocked then Inl (HTTPError UserBlockedYou 400)
                   else if type fr = friends then Inl (HTTPError AlreadyFriends 400)
                   else Inr (fr\<lparr>type := friends\<rparr>)
               | None \<Rightarrow> Inr \<lparr>from_id = b, to_id = a, type = incoming\<rparr>"
    let ?Z = "case findEdge s a b of
                      Some rel \<Rightarrow>
                        if type rel = outgoing then Inl (HTTPError AlreadySent 400)
                        else if type rel = blocked then Inl (HTTPError UnblockFirst 400)
                        else if type rel = friends then Inl (HTTPError AlreadyFriends 400)
                        else Inr (rel\<lparr>type := friends\<rparr>)
                    | None \<Rightarrow> Inr \<lparr>from_id = a, to_id = b, type = outgoing\<rparr>"
    show ?thesis
    proof (cases "length (filter (\<lambda>r. from_id r = a) (table s)) \<ge> maxFriends")
      case True
      with req have "put_route maxFriends a b body_type s = (Inl (MAXIMUM_FRIENDS maxFriends), ?s1)"
        by (simp add: pr)
      with c show ?thesis by (simp add: consistent_def)
    next
      case cap: False
      show ?thesis
      proof (cases ?Y)
        case (Inl e)
        with req cap have "put_route maxFriends a b body_type s = (Inl e, ?s1)"
          by (simp add: pr)
        with c show ?thesis by (simp add: consistent_def)
      next
        case Y: (Inr inc)
        then have i: "from_id inc = b" "to_id inc = a" "type inc \<noteq> blocked"
          by (auto split: option.splits if_splits dest: findEdge_SomeD)
        show ?thesis
        proof (cases ?Z)
          case (Inl e)
          with req cap Y have "put_route maxFriends a b body_type s = (Inl e, ?s1)"
            by (simp add: pr)
          with c show ?thesis by (simp add: consistent_def)
        next
          case Z: (Inr out)
          then have out: "from_id out = a" "to_id out = b" "type out \<noteq> blocked"
            by (auto split: option.splits if_splits dest: findEdge_SomeD)
          from req cap Y Z
          have "table (snd (put_route maxFriends a b body_type s)) = save out (save inc (table s))"
            by (simp add: pr emitEvent_def Relationship_save_def)
          then show ?thesis
            using blocks_hidden_request [OF u h i out ab]
              unique_pairs_save [OF unique_pairs_save [OF u]]
            by (simp add: consistent_def)
        qed
      qed
    qed
  qed
qed

lemma consistent_delete_route:
  assumes c: "consistent s"
  shows "consistent (snd (delete_route a b s))"
proof (cases "a \<noteq> b \<and> a \<in> set (users s) \<and> b \<in> set (users s)")
  case False
  from delete_route_no_users [OF False] c show ?thesis
    by (simp add: consistent_def)
next
  case True
  then have dr: "delete_route a b s = (let s2 = s\<lparr>queries := queries s @ [a, b]\<rparr> in
      case findEdge s a b of
        None \<Rightarrow> (Inl (HTTPError NotFriends 404), s2)
      | Some rel \<Rightarrow>
          if type rel = blocked then
            (Inr 204, emitEvent \<lparr>event = RELATIONSHIP_REMOVE, user_id = a,
                                 data = rel, should_notify = False\<rparr>
                        (Relationship_delete rel s2))
          else
            let s3 = (case findEdge s b a of
                        Some fr \<Rightarrow>
                          if type fr \<noteq> blocked
                          then emitEvent \<lparr>event = RELATIONSHIP_REMOVE, user_id = b,
                                          data = fr, should_notify = False\<rparr>
                                 (Relationship_delete fr s2)
                          else s2
                      | None \<Rightarrow> s2)
            in (Inr 204, emitEvent \<lparr>event = RELATIONSHIP_REMOVE, user_id = a,
                                    data = rel, should_notify = False\<rparr>
                           (Relationship_delete rel s3)))"
    by (simp add: delete_route_users)
  have "table (snd (delete_route a b s)) = table s \<or>
        (\<exists>rel. table (snd (delete_route a b s)) = delete rel (table s)) \<or>
        (\<exists>rel fr. table (snd (delete_route a b s)) = delete rel (delete fr (table s)))"
    unfolding dr
    by (auto simp: Let_def emitEvent_def Relationship_delete_def split: option.splits)
  moreover from c have u: "unique_pairs (table s)" and h: "blocks_hidden (table s)"
    by (simp_all add: consistent_def)
  moreover have "blocks_hidden (delete rel (table s))" for rel
    by (rule blocks_hidden_subset [OF h set_delete_subset])
  moreover have "blocks_hidden (delete rel (delete fr (table s)))" for rel fr
    by (rule blocks_hidden_subset [OF h]) (auto simp: delete_def)
  ultimately show ?thesis
    using unique_pairs_delete [OF u] unique_pairs_delete [OF unique_pairs_delete [OF u]]
    by (auto simp: consistent_def)
qed

lemma consistent_serve: "consistent s \<Longrightarrow> consistent (snd (serve maxFriends r s))"
  by (cases r) (simp_all add: consistent_put_route consistent_delete_route)

lemma consistent_run: "consistent s \<Longrightarrow> consistent (run maxFriends rs s)"
  by (induction rs arbitrary: s) (simp_all add: consistent_serve)

text \<open>Every store the routes reach from an empty relationships table is consistent.\<close>

lemma consistent_from_empty: "table s = [] \<Longrightarrow> consistent (run maxFriends rs s)"
  by (rule consistent_run) (simp add: consistent_def unique_pairs_def blocks_hidden_def)

subsection \<open>Blocking twice\<close>

lemma users_put_route [simp]: "users (snd (put_route maxFriends a b body_type s)) = users s"
proof (cases "a \<noteq> b \<and> a \<in> set (users s) \<and> b \<in> set (users s)")
  case False
  then show ?thesis
    by (auto simp: put_route_def updateRelationship_def findOneOrFail_def)
next
  case True
  then show ?thesis
    by (simp add: put_route_users Let_def emitEvent_def Relationship_save_def
        Relationship_delete_def split: option.splits sum.splits)
qed

lemma users_delete_route [simp]: "users (snd (delete_route a b s)) = users s"
proof (cases "a \<noteq> b \<and> a \<in> set (users s) \<and> b \<in> set (users s)")
  case False
  then show ?thesis
    by (auto simp: delete_route_def findOneOrFail_def)
next
  case True
  then show ?thesis
    by (simp add: delete_route_users Let_def emitEvent_def Relationship_delete_def
        split: option.splits)
qed

lemma block_success_edge:
  assumes ok: "fst (block maxFriends a b s) = Inr 204"
  shows "a \<noteq> b \<and> a \<in> set (users s) \<and> b \<in> set (users s) \<and>
         (\<exists>r. findEdge (snd (block maxFriends a b s)) a b = Some r \<and> type r = blocked)"
proof -
  have u: "a \<noteq> b \<and> a \<in> set (users s) \<and> b \<in> set (users s)"
  proof (rule ccontr)
    assume "\<not> ?thesis"
    from put_route_no_users [OF this, of maxFriends "Some blocked"] ok show False
      by (auto simp: block_def)
  qed
  then have ab: "a \<noteq> b" and ua: "a \<in> set (users s)" and ub: "b \<in> set (users s)"
    by simp_all
  note pr = put_route_users [OF ab ua ub, of maxFriends "Some blocked"]
  let ?X = "case findEdge s a b of
                 Some rel \<Rightarrow>
                   if type rel = blocked then Inl (HTTPError AlreadyBlocked 400)
                   else Inr (rel\<lparr>type := blocked\<rparr>)
               | None \<Rightarrow> Inr \<lparr>from_id = a, to_id = b, type = blocked\<rparr>"
  have "\<exists>r. findEdge (snd (block maxFriends a b s)) a b = Some r \<and> type r = blocked"
  proof (cases ?X)
    case (Inl e)
    then have "fst (block maxFriends a b s) = Inl e"
      by (simp add: block_def pr)
    with ok show ?thesis by simp
  next
    case (Inr r)
    then have r: "from_id r = a" "to_id r = b" "type r = blocked"
      by (auto split: option.splits if_splits dest: findEdge_SomeD)
    have "findEdge (snd (block maxFriends a b s)) a b = Some r"
    proof (cases "findEdge s b a")
      case None
      with Inr r show ?thesis
        by (simp add: block_def pr findEdge_save)
    next
      case (Some fr)
      then have "from_id fr = b" "to_id fr = a"
        by (simp_all add: findEdge_SomeD)
      with Inr r Some ab show ?thesis
        by (cases "type fr = blocked")
          (simp_all add: block_def pr Let_def findEdge_save findEdge_delete)
    qed
    with r show ?thesis by simp
  qed
  with u show ?thesis by simp
qed

lemma block_again:
  assumes "a \<noteq> b" and "a \<in> set (users s)" and "b \<in> set (users s)"
    and "findEdge s a b = Some r" and "type r = blocked"
  shows "block maxFriends a b s =
           (Inl (HTTPError AlreadyBlocked 400), s\<lparr>queries := queries s @ [b, a]\<rparr>)"
  using assms(4,5)
  by (simp add: block_def put_route_users [OF assms(1,2,3)])

subsection \<open>A block stands until it is removed\<close>

lemma put_route_shape:
  assumes ab: "a \<noteq> b" and ua: "a \<in> set (users s)" and ub: "b \<in> set (users s)"
  shows "table (snd (put_route maxFriends a b body_type s)) = table s \<or>
    (\<exists>r. from_id r = a \<and> to_id r = b \<and> type r = blocked \<and>
         (\<forall>rel. findEdge s a b = Some rel \<longrightarrow> type rel \<noteq> blocked) \<and>
         (\<forall>fr. findEdge s b a = Some fr \<longrightarrow> type fr = blocked) \<and>
         table (snd (put_route maxFriends a b body_type s)) = save r (table s)) \<or>
    (\<exists>r fr. from_id r = a \<and> to_id r = b \<and> type r = blocked \<and>
         (\<forall>rel. findEdge s a b = Some rel \<longrightarrow> type rel \<noteq> blocked) \<and>
         findEdge s b a = Some fr \<and> type fr \<noteq> blocked \<and>
         table (snd (put_route maxFriends a b body_type s)) = delete fr (save r (table s))) \<or>
    (\<exists>inc out. from_id inc = b \<and> to_id inc = a \<and> from_id out = a \<and> to_id out = b \<and>
         (\<forall>fr. findEdge s b a = Some fr \<longrightarrow> type fr \<noteq> blocked) \<and>
         (\<forall>rel. findEdge s a b = Some rel \<longrightarrow> type rel \<noteq> blocked) \<and>
         table (snd (put_route maxFriends a b body_type s)) = save out (save inc (table s)))"
    (is "?same \<or> ?keep \<or> ?prune \<or> ?req")
proof -
  note pr = put_route_users [OF ab ua ub, of maxFriends body_type]
  let ?s1 = "s\<lparr>queries := queries s @ [b, a]\<rparr>"
  let ?ty = "case body_type of None \<Rightarrow> friends | Some t \<Rightarrow> t"
  show ?thesis
  proof (cases "?ty = blocked")
    case blk: True
    let ?X = "case findEdge s a b of
                 Some rel \<Rightarrow>
                   if type rel = blocked then Inl (HTTPError AlreadyBlocked 400)
                   else Inr (rel\<lparr>type := blocked\<rparr>)
               | None \<Rightarrow> Inr \<lparr>from_id = a, to_id = b, type = blocked\<rparr>"
    show ?thesis
    proof (cases ?X)
      case (Inl e)
      with blk have "put_route maxFriends a b body_type s = (Inl e, ?s1)"
        by (simp add: pr)
      then have ?same by simp
      then show ?thesis ..
    next
      case (Inr r)
      then have r: "from_id r = a" "to_id r = b" "type r = blocked"
        by (auto split: option.splits if_splits dest: findEdge_SomeD)
      from Inr have nb: "\<forall>rel. findEdge s a b = Some rel \<longrightarrow> type rel \<noteq> blocked"
        by (auto split: option.splits if_splits)
      show ?thesis
      proof (cases "findEdge s b a")
        case None
        with blk Inr have "table (snd (put_route maxFriends a b body_type s)) = save r (table s)"
          by (simp add: pr emitEvent_def Relationship_save_def)
        with r nb None have ?keep by auto
        then show ?thesis by simp
      next
        case (Some fr)
        show ?thesis
        proof (cases "type fr = blocked")
          case True
          with blk Inr Some
          have "table (snd (put_route maxFriends a b body_type s)) = save r (table s)"
            by (simp add: pr emitEvent_def Relationship_save_def)
          with r nb Some True have ?keep by auto
          then show ?thesis by simp
        next
          case False
          with blk Inr Some
          have "table (snd (put_route maxFriends a b body_type s)) = delete fr (save r (table s))"
            by (simp add: pr emitEvent_def Relationship_save_def Relationship_delete_def)
          with r nb Some False have ?prune by auto
          then show ?thesis by simp
        qed
      qed
    qed
  next
    case req: False
    let ?Y = "case findEdge s b a of
                 Some fr \<Rightarrow>
                   if type fr = blocked then Inl (HTTPError UserBlockedYou 400)
                   else if type fr = friends then Inl (HTTPError AlreadyFriends 400)
                   else Inr (fr\<lparr>type := friends\<rparr>)
               | None \<Rightarrow> Inr \<lparr>from_id = b, to_id = a, type = incoming\<rparr>"
    let ?Z = "case findEdge s a b of
                      Some rel \<Rightarrow>
                        if type rel = outgoing then Inl (HTTPError AlreadySent 400)
                        else if type rel = blocked then Inl (HTTPError UnblockFirst 400)
                        else if type rel = friends then Inl (HTTPError AlreadyFriends 400)
                        else Inr (rel\<lparr>type := friends\<rparr>)
                    | None \<Rightarrow> Inr \<lparr>from_id = a, to_id = b, type = outgoing\<rparr>"
    show ?thesis
    proof (cases "length (filter (\<lambda>r. from_id r = a) (table s)) \<ge> maxFriends")
      case True
      with req have "put_route maxFriends a b body_type s = (Inl (MAXIMUM_FRIENDS maxFriends), ?s1)"
        by (simp add: pr)
      then have ?same by simp
      then show ?thesis ..
    next
      case cap: False
      show ?thesis
      proof (cases ?Y)
        case (Inl e)
        with req cap have "put_route maxFriends a b body_type s = (Inl e, ?s1)"
          by (simp add: pr)
        then have ?same by simp
        then show ?thesis ..
      next
        case Y: (Inr inc)
        then have i: "from_id inc = b" "to_id inc = a"
          by (auto split: option.splits if_splits dest: findEdge_SomeD)
        from Y have nf: "\<forall>fr. findEdge s b a = Some fr \<longrightarrow> type fr \<noteq> blocked"
          by (auto split: option.splits if_splits)
        show ?thesis
        proof (cases ?Z)
          case (Inl e)
          with req cap Y have "put_route maxFriends a b body_type s = (Inl e, ?s1)"
            by (simp add: pr)
          then have ?same by simp
          then show ?thesis ..
        next
          case Z: (Inr out)
          then have out: "from_id out = a" "to_id out = b"
            by (auto split: option.splits if_splits dest: findEdge_SomeD)
          from Z have nr: "\<forall>rel. findEdge s a b = Some rel \<longrightarrow> type rel \<noteq> blocked"
            by (auto split: option.splits if_splits)
          from req cap Y Z
          have "table (snd (put_route maxFriends a b body_type s)) = save out (save inc (table s))"
            by (simp add: pr emitEvent_def Relationship_save_def)
          with i out nf nr have ?req by auto
          then show ?thesis by simp
        qed
      qed
    qed
  qed
qed

lemma delete_route_shape:
  assumes ab: "a \<noteq> b" and ua: "a \<in> set (users s)" and ub: "b \<in> set (users s)"
  shows "table (snd (delete_route a b s)) = table s \<or>
    (\<exists>rel. from_id rel = a \<and> to_id rel = b \<and>
         table (snd (delete_route a b s)) = delete rel (table s)) \<or>
    (\<exists>rel fr. from_id rel = a \<and> to_id rel = b \<and> findEdge s b a = Some fr \<and>
         type fr \<noteq> blocked \<and>
         table (snd (delete_route a b s)) = delete rel (delete fr (table s)))"
    (is "?same \<or> ?one \<or> ?both")
proof (cases "findEdge s a b")
  case None
  then have ?same
    by (simp add: delete_route_users [OF ab ua ub])
  then show ?thesis ..
next
  case (Some rel)
  then have k: "from_id rel = a" "to_id rel = b"
    by (simp_all add: findEdge_SomeD)
  show ?thesis
  proof (cases "type rel = blocked")
    case True
    with Some have "table (snd (delete_route a b s)) = delete rel (table s)"
      by (simp add: delete_route_users [OF ab ua ub] emitEvent_def Relationship_delete_def)
    with k have ?one by auto
    then show ?thesis by simp
  next
    case nb: False
    show ?thesis
    proof (cases "findEdge s b a")
      case None
      with Some nb have "table (snd (delete_route a b s)) = delete rel (table s)"
        by (simp add: delete_route_users [OF ab ua ub] emitEvent_def Relationship_delete_def)
      with k have ?one by auto
      then show ?thesis by simp
    next
      case fr: (Some fr)
      show ?thesis
      proof (cases "type fr = blocked")
        case True
        with Some nb fr have "table (snd (delete_route a b s)) = delete rel (table s)"
          by (simp add: delete_route_users [OF ab ua ub] emitEvent_def Relationship_delete_def)
        with k have ?one by auto
        then show ?thesis by simp
      next
        case False
        with Some nb fr
        have "table (snd (delete_route a b s)) = delete rel (delete fr (table s))"
          by (simp add: delete_route_users [OF ab ua ub] Let_def emitEvent_def
              Relationship_delete_def)
        with k fr False have ?both by auto
        then show ?thesis by simp
      qed
    qed
  qed
qed

lemma block_stands_lookup:
  "block_stands s a b \<longleftrightarrow>
     (\<exists>r. lookup (table s) a b = Some r \<and> type r = blocked) \<and>
     (\<forall>fr. lookup (table s) b a = Some fr \<longrightarrow> type fr = blocked)"
  by (auto simp: block_stands_def findEdge_lookup split: option.splits)

lemma block_stands_table:
  "table s' = table s \<Longrightarrow> block_stands s a b \<Longrightarrow> block_stands s' a b"
  by (simp add: block_stands_lookup)

lemma block_stands_save:
  assumes bs: "block_stands s a b" and t: "table s' = save r (table s)"
    and r: "(from_id r, to_id r) \<noteq> (a, b)"
    and r': "(from_id r, to_id r) = (b, a) \<longrightarrow> type r = blocked"
  shows "block_stands s' a b"
proof -
  from bs obtain r0 where 1: "lookup (table s) a b = Some r0" "type r0 = blocked"
    and 2: "\<forall>fr. lookup (table s) b a = Some fr \<longrightarrow> type fr = blocked"
    by (auto simp: block_stands_lookup)
  from r 1 have "lookup (table s') a b = Some r0"
    by (auto simp: t lookup_save)
  moreover from r' 2 have "\<forall>fr. lookup (table s') b a = Some fr \<longrightarrow> type fr = blocked"
    by (auto simp: t lookup_save)
  ultimately show ?thesis
    using 1(2) by (simp add: block_stands_lookup)
qed

lemma block_stands_delete:
  assumes bs: "block_stands s a b" and t: "table s' = delete r (table s)"
    and r: "(from_id r, to_id r) \<noteq> (a, b)"
  shows "block_stands s' a b"
proof -
  from bs obtain r0 where 1: "lookup (table s) a b = Some r0" "type r0 = blocked"
    and 2: "\<forall>fr. lookup (table s) b a = Some fr \<longrightarrow> type fr = blocked"
    by (auto simp: block_stands_lookup)
  from r 1 have "lookup (table s') a b = Some r0"
    by (auto simp: t lookup_delete)
  moreover from 2 have "\<forall>fr. lookup (table s') b a = Some fr \<longrightarrow> type fr = blocked"
    by (auto simp: t lookup_delete)
  ultimately show ?thesis
    using 1(2) by (simp add: block_stands_lookup)
qed

lemma block_stands_blocked:
  "block_stands s a b \<Longrightarrow> findEdge s a b = Some rel \<Longrightarrow> type rel = blocked"
  by (simp add: block_stands_def)

lemma block_stands_put:
  assumes bs: "block_stands s a b"
  shows "block_stands (snd (put_route maxFriends me tgt body_type s)) a b"
proof (cases "me \<noteq> tgt \<and> me \<in> set (users s) \<and> tgt \<in> set (users s)")
  case False
  from put_route_no_users [OF False, of maxFriends body_type]
  have "table (snd (put_route maxFriends me tgt body_type s)) = table s" by simp
  then show ?thesis using bs by (rule block_stands_table)
next
  case True
  then have mt: "me \<noteq> tgt" and um: "me \<in> set (users s)" and ut: "tgt \<in> set (users s)"
    by simp_all
  let ?s' = "snd (put_route maxFriends me tgt body_type s)"
  from bs obtain r0 where r0: "findEdge s a b = Some r0" "type r0 = blocked"
    by (auto simp: block_stands_def split: option.splits)
  from put_route_shape [OF mt um ut, of maxFriends body_type] show ?thesis
  proof (elim disjE exE conjE)
    assume "table ?s' = table s"
    then show ?thesis using bs by (rule block_stands_table)
  next
    fix r
    assume r: "from_id r = me" "to_id r = tgt" "type r = blocked"
      and nb: "\<forall>rel. findEdge s me tgt = Some rel \<longrightarrow> type rel \<noteq> blocked"
      and t: "table ?s' = save r (table s)"
    from nb r0 have "\<not> (me = a \<and> tgt = b)" by auto
    with r have 1: "(from_id r, to_id r) \<noteq> (a, b)" by simp
    from r have 2: "(from_id r, to_id r) = (b, a) \<longrightarrow> type r = blocked" by simp
    show ?thesis by (rule block_stands_save [OF bs t 1 2])
  next
    fix r fr
    assume r: "from_id r = me" "to_id r = tgt" "type r = blocked"
      and nb: "\<forall>rel. findEdge s me tgt = Some rel \<longrightarrow> type rel \<noteq> blocked"
      and fr: "findEdge s tgt me = Some fr" "type fr \<noteq> blocked"
      and t: "table ?s' = delete fr (save r (table s))"
    from nb r0 have "\<not> (me = a \<and> tgt = b)" by auto
    with r have 1: "(from_id r, to_id r) \<noteq> (a, b)" by simp
    from r have 2: "(from_id r, to_id r) = (b, a) \<longrightarrow> type r = blocked" by simp
    from fr r0 have "\<not> (tgt = a \<and> me = b)" by auto
    moreover from fr(1) have "from_id fr = tgt" "to_id fr = me"
      by (simp_all add: findEdge_SomeD)
    ultimately have 3: "(from_id fr, to_id fr) \<noteq> (a, b)" by simp
    let ?mid = "s\<lparr>table := save r (table s)\<rparr>"
    have m: "table ?mid = save r (table s)" by simp
    have t': "table ?s' = delete fr (table ?mid)" using t by simp
    show ?thesis
      by (rule block_stands_delete [OF block_stands_save [OF bs m 1 2] t' 3])
  next
    fix inc out
    assume i: "from_id inc = tgt" "to_id inc = me" and out: "from_id out = me" "to_id out = tgt"
      and nf: "\<forall>fr. findEdge s tgt me = Some fr \<longrightarrow> type fr \<noteq> blocked"
      and nb: "\<forall>rel. findEdge s me tgt = Some rel \<longrightarrow> type rel \<noteq> blocked"
      and t: "table ?s' = save out (save inc (table s))"
    from nb r0 have x: "\<not> (me = a \<and> tgt = b)" by auto
    from nf r0 have y: "\<not> (tgt = a \<and> me = b)" by auto
    from x out have 1: "(from_id out, to_id out) \<noteq> (a, b)" by simp
    from y out have 2: "(from_id out, to_id out) = (b, a) \<longrightarrow> type out = blocked" by auto
    from y i have 3: "(from_id inc, to_id inc) \<noteq> (a, b)" by simp
    from x i have 4: "(from_id inc, to_id inc) = (b, a) \<longrightarrow> type inc = blocked" by auto
    let ?mid = "s\<lparr>table := save inc (table s)\<rparr>"
    have m: "table ?mid = save inc (table s)" by simp
    have t': "table ?s' = save out (table ?mid)" using t by simp
    show ?thesis
      by (rule block_stands_save [OF block_stands_save [OF bs m 3 4] t' 1 2])
  qed
qed

lemma block_stands_delete_route:
  assumes bs: "block_stands s a b" and ne: "\<not> (me = a \<and> tgt = b)"
  shows "block_stands (snd (delete_route me tgt s)) a b"
proof (cases "me \<noteq> tgt \<and> me \<in> set (users s) \<and> tgt \<in> set (users s)")
  case False
  from delete_route_no_users [OF False]
  have "table (snd (delete_route me tgt s)) = table s" by simp
  then show ?thesis using bs by (rule block_stands_table)
next
  case True
  then have mt: "me \<noteq> tgt" and um: "me \<in> set (users s)" and ut: "tgt \<in> set (users s)"
    by simp_all
  let ?s' = "snd (delete_route me tgt s)"
  from bs obtain r0 where r0: "findEdge s a b = Some r0" "type r0 = blocked"
    by (auto simp: block_stands_def split: option.splits)
  from delete_route_shape [OF mt um ut] show ?thesis
  proof (elim disjE exE conjE)
    assume "table ?s' = table s"
    then show ?thesis using bs by (rule block_stands_table)
  next
    fix rel
    assume rel: "from_id rel = me" "to_id rel = tgt" and t: "table ?s' = delete rel (table s)"
    from ne rel have 1: "(from_id rel, to_id rel) \<noteq> (a, b)" by simp
    show ?thesis by (rule block_stands_delete [OF bs t 1])
  next
    fix rel fr
    assume rel: "from_id rel = me" "to_id rel = tgt"
      and fr: "findEdge s tgt me = Some fr" "type fr \<noteq> blocked"
      and t: "table ?s' = delete rel (delete fr (table s))"
    from ne rel have 1: "(from_id rel, to_id rel) \<noteq> (a, b)" by simp
    from fr r0 have "\<not> (tgt = a \<and> me = b)" by auto
    moreover from fr(1) have "from_id fr = tgt" "to_id fr = me"
      by (simp_all add: findEdge_SomeD)
    ultimately have 2: "(from_id fr, to_id fr) \<noteq> (a, b)" by simp
    let ?mid = "s\<lparr>table := delete fr (table s)\<rparr>"
    have m: "table ?mid = delete fr (table s)" by simp
    have t': "table ?s' = delete rel (table ?mid)" using t by simp
    show ?thesis
      by (rule block_stands_delete [OF block_stands_delete [OF bs m 2] t' 1])
  qed
qed

lemma block_stands_serve:
  "block_stands s a b \<Longrightarrow> r \<noteq> Delete a b \<Longrightarrow> block_stands (snd (serve maxFriends r s)) a b"
  by (cases r) (simp_all add: block_stands_put block_stands_delete_route)

lemma block_stands_run:
  "block_stands s a b \<Longrightarrow> Delete a b \<notin> set rs \<Longrightarrow> block_stands (run maxFriends rs s) a b"
proof (induction rs arbitrary: s)
  case Nil
  then show ?case by simp
next
  case (Cons r rs)
  from Cons.prems have "r \<noteq> Delete a b" "Delete a b \<notin> set rs" by auto
  with Cons.prems(1) Cons.IH [of "snd (serve maxFriends r s)"] show ?case
    by (simp add: block_stands_serve)
qed

lemma users_serve [simp]: "users (snd (serve maxFriends r s)) = users s"
  by (cases r) simp_all

lemma users_run [simp]: "users (run maxFriends rs s) = users s"
  by (induction rs arbitrary: s) simp_all

lemma request_refused_while_blocked:
  assumes bs: "block_stands s a b" and ab: "a \<noteq> b"
    and ua: "a \<in> set (users s)" and ub: "b \<in> set (users s)"
  shows "fst (requestOrAccept maxFriends b a s) = Inl (HTTPError UserBlockedYou 400) \<or>
         fst (requestOrAccept maxFriends b a s) = Inl (MAXIMUM_FRIENDS maxFriends)"
proof -
  from bs obtain r0 where r0: "findEdge s a b = Some r0" "type r0 = blocked"
    by (auto simp: block_stands_def split: option.splits)
  show ?thesis
    by (cases "maxFriends \<le> length (filter (\<lambda>r. from_id r = b) (table s))")
      (simp_all add: requestOrAccept_def put_route_users [OF ab [symmetric] ub ua] r0 Let_def)
qed

lemma block_success_stands:
  assumes ok: "fst (block maxFriends a b s) = Inr 204"
  shows "block_stands (snd (block maxFriends a b s)) a b"
proof -
  let ?s' = "snd (block maxFriends a b s)"
  from block_success_edge [OF ok] obtain r where
    ab: "a \<noteq> b" and ua: "a \<in> set (users s)" and ub: "b \<in> set (users s)"
    and r: "findEdge ?s' a b = Some r" "type r = blocked"
    by auto
  have "type fr = blocked" if f: "findEdge ?s' b a = Some fr" for fr
  proof (cases "findEdge s a b")
    case None
    with ok f ab ua ub show ?thesis
      by (auto simp: block_def put_route_users Let_def findEdge_save findEdge_delete
          split: option.splits if_splits dest: findEdge_SomeD)
  next
    case (Some rel)
    with ok f ab ua ub show ?thesis
      by (auto simp: block_def put_route_users Let_def findEdge_save findEdge_delete
          split: option.splits if_splits dest: findEdge_SomeD)
  qed
  with r show ?thesis
    by (auto simp: block_stands_def split: option.splits)
qed

text \<open>
  C4, as amended. Once \<open>block a b\<close> has succeeded, a second \<open>block a b\<close> fails with
  "You already blocked the user", writes no row and emits no event. From then on, through
  any run of requests in which \<open>a\<close> does not remove \<open>b\<close>, the edge of \<open>a\<close> toward \<open>b\<close>
  stays \<open>blocked\<close>, an edge \<open>b\<close> holds toward \<open>a\<close> can only be a \<open>blocked\<close> edge of
  \<open>b\<close>'s own, and a friend request of \<open>b\<close> toward \<open>a\<close> is refused: "The user blocked
  you", unless the friend limit refuses it first.
\<close>

theorem block_twice_and_after:
  assumes ok: "fst (block maxFriends a b s) = Inr 204"
  shows "fst (block maxFriends a b (snd (block maxFriends a b s))) =
           Inl (HTTPError AlreadyBlocked 400) \<and>
         table (snd (block maxFriends a b (snd (block maxFriends a b s)))) =
           table (snd (block maxFriends a b s)) \<and>
         emitted (snd (block maxFriends a b (snd (block maxFriends a b s)))) =
           emitted (snd (block maxFriends a b s)) \<and>
         (\<forall>rs. Delete a b \<notin> set rs \<longrightarrow>
            (\<exists>r. findEdge (run maxFriends rs (snd (block maxFriends a b s))) a b = Some r \<and>
                 type r = blocked) \<and>
            (\<forall>fr. findEdge (run maxFriends rs (snd (block maxFriends a b s))) b a = Some fr \<longrightarrow>
                  type fr = blocked) \<and>
            (fst (requestOrAccept maxFriends b a (run maxFriends rs (snd (block maxFriends a b s)))) =
               Inl (HTTPError UserBlockedYou 400) \<or>
             fst (requestOrAccept maxFriends b a (run maxFriends rs (snd (block maxFriends a b s)))) =
               Inl (MAXIMUM_FRIENDS maxFriends)))"
proof -
  let ?s' = "snd (block maxFriends a b s)"
  from block_success_edge [OF ok] obtain r where
    ab: "a \<noteq> b" and ua: "a \<in> set (users s)" and ub: "b \<in> set (users s)"
    and r: "findEdge ?s' a b = Some r" "type r = blocked"
    by auto
  have us: "a \<in> set (users ?s')" "b \<in> set (users ?s')"
    using ua ub by (simp_all add: block_def)
  note again = block_again [OF ab us r, of maxFriends]
  have after: "(\<exists>r. findEdge (run maxFriends rs ?s') a b = Some r \<and> type r = blocked) \<and>
      (\<forall>fr. findEdge (run maxFriends rs ?s') b a = Some fr \<longrightarrow> type fr = blocked) \<and>
      (fst (requestOrAccept maxFriends b a (run maxFriends rs ?s')) =
         Inl (HTTPError UserBlockedYou 400) \<or>
       fst (requestOrAccept maxFriends b a (run maxFriends rs ?s')) =
         Inl (MAXIMUM_FRIENDS maxFriends))"
    if d: "Delete a b \<notin> set rs" for rs
  proof -
    from block_stands_run [OF block_success_stands [OF ok] d]
    have bs: "block_stands (run maxFriends rs ?s') a b" .
    have u: "a \<in> set (users (run maxFriends rs ?s'))" "b \<in> set (users (run maxFriends rs ?s'))"
      using us by simp_all
    from bs have "(\<exists>r. findEdge (run maxFriends rs ?s') a b = Some r \<and> type r = blocked) \<and>
      (\<forall>fr. findEdge (run maxFriends rs ?s') b a = Some fr \<longrightarrow> type fr = blocked)"
      by (simp add: block_stands_lookup findEdge_lookup)
    with request_refused_while_blocked [OF bs ab u, of maxFriends] show ?thesis
      by (intro conjI) (elim conjE, assumption)+
  qed
  have 1: "fst (block maxFriends a b ?s') = Inl (HTTPError AlreadyBlocked 400)"
    and 2: "table (snd (block maxFriends a b ?s')) = table ?s'"
    and 3: "emitted (snd (block maxFriends a b ?s')) = emitted ?s'"
    by (simp_all add: again)
  from after have 4: "\<forall>rs. Delete a b \<notin> set rs \<longrightarrow>
            (\<exists>r. findEdge (run maxFriends rs ?s') a b = Some r \<and> type r = blocked) \<and>
            (\<forall>fr. findEdge (run maxFriends rs ?s') b a = Some fr \<longrightarrow> type fr = blocked) \<and>
            (fst (requestOrAccept maxFriends b a (run maxFriends rs ?s')) =
               Inl (HTTPError UserBlockedYou 400) \<or>
             fst (requestOrAccept maxFriends b a (run maxFriends rs ?s')) =
               Inl (MAXIMUM_FRIENDS maxFriends))"
    by (intro allI impI)
  from 1 2 3 4 show ?thesis
    by (intro conjI)
qed

theorem block_twice_and_after_witness:
  "fst (block 10 ''A'' ''B'' store_request) = Inr 204 \<and>
   fst (block 10 ''A'' ''B'' (snd (block 10 ''A'' ''B'' store_request))) =
     Inl (HTTPError AlreadyBlocked 400) \<and>
   table (snd (block 10 ''A'' ''B'' (snd (block 10 ''A'' ''B'' store_request)))) =
     table (snd (block 10 ''A'' ''B'' store_request)) \<and>
   (\<exists>r. findEdge (run 10 [Put ''B'' ''A'' None, Delete ''B'' ''A'', Put ''A'' ''B'' None]
                    (snd (block 10 ''A'' ''B'' store_request))) ''A'' ''B'' = Some r \<and>
        type r = blocked) \<and>
   (fst (requestOrAccept 10 ''B'' ''A''
          (run 10 [Put ''B'' ''A'' None, Delete ''B'' ''A'', Put ''A'' ''B'' None]
             (snd (block 10 ''A'' ''B'' store_request)))) = Inl (HTTPError UserBlockedYou 400) \<or>
    fst (requestOrAccept 10 ''B'' ''A''
          (run 10 [Put ''B'' ''A'' None, Delete ''B'' ''A'', Put ''A'' ''B'' None]
             (snd (block 10 ''A'' ''B'' store_request)))) = Inl (MAXIMUM_FRIENDS 10))"
proof -
  have ok: "fst (block 10 ''A'' ''B'' store_request) = Inr 204"
    by (simp add: route_eval store_request_def)
  have d: "Delete ''A'' ''B'' \<notin> set [Put ''B'' ''A'' None, Delete ''B'' ''A'', Put ''A'' ''B'' None]"
    by simp
  note t = block_twice_and_after [OF ok]
  note 1 = t [THEN conjunct1]
  note 2 = t [THEN conjunct2, THEN conjunct1]
  note after = t [THEN conjunct2, THEN conjunct2, THEN conjunct2, rule_format, OF d]
  note 3 = after [THEN conjunct1]
  note 4 = after [THEN conjunct2, THEN conjunct2]
  from ok 1 2 3 4 show ?thesis
    by (intro conjI)
qed

text \<open>
  C4 as stated fails in two ways. Where \<open>B\<close> had blocked \<open>A\<close> before, \<open>block A B\<close>
  succeeds and \<open>B\<close> still holds its own \<open>blocked\<close> edge toward \<open>A\<close>. And once \<open>A\<close> has
  removed its block, a request of \<open>B\<close> gives \<open>B\<close> an outgoing edge toward \<open>A\<close>.
\<close>

theorem block_keeps_blocked_edge_of_target:
  "fst (block 10 ''A'' ''B'' store_blocked_back) = Inr 204 \<and>
   findEdge (snd (block 10 ''A'' ''B'' store_blocked_back)) ''B'' ''A'' =
     Some \<lparr>from_id = ''B'', to_id = ''A'', type = blocked\<rparr> \<and>
   fst (block 10 ''A'' ''B'' store_empty) = Inr 204 \<and>
   findEdge (snd (requestOrAccept 10 ''B'' ''A''
               (snd (remove ''A'' ''B'' (snd (block 10 ''A'' ''B'' store_empty)))))) ''B'' ''A'' =
     Some \<lparr>from_id = ''B'', to_id = ''A'', type = outgoing\<rparr>"
  by (simp add: route_eval store_blocked_back_def store_empty_def)

subsection \<open>Acting on oneself\<close>

text \<open>
  C6, as amended. \<open>remove a a\<close> fails with "You can't remove yourself as a friend" and leaves
  the store untouched, no query issued. For a user \<open>a\<close> of the users table,
  \<open>requestOrAccept a a\<close> and \<open>block a a\<close> fail with "You can't add yourself as a friend"
  after exactly one query, the route's load of the target, and write and emit nothing.
\<close>

theorem self_action_fails:
  "remove a a s = (Inl (HTTPError CantRemoveSelf 400), s) \<and>
   (a \<in> set (users s) \<longrightarrow>
      requestOrAccept maxFriends a a s =
        (Inl (HTTPError CantAddSelf 400), s\<lparr>queries := queries s @ [a]\<rparr>) \<and>
      block maxFriends a a s =
        (Inl (HTTPError CantAddSelf 400), s\<lparr>queries := queries s @ [a]\<rparr>))"
  by (simp add: remove_def delete_route_def requestOrAccept_def block_def put_route_def
      updateRelationship_def findOneOrFail_def)

theorem self_action_fails_witness:
  "remove ''A'' ''A'' store_friends = (Inl (HTTPError CantRemoveSelf 400), store_friends) \<and>
   ''A'' \<in> set (users store_friends) \<and>
   requestOrAccept 10 ''A'' ''A'' store_friends =
     (Inl (HTTPError CantAddSelf 400), store_friends\<lparr>queries := [''A'']\<rparr>) \<and>
   block 10 ''A'' ''A'' store_friends =
     (Inl (HTTPError CantAddSelf 400), store_friends\<lparr>queries := [''A'']\<rparr>)"
proof -
  have u: "''A'' \<in> set (users store_friends)"
    by (simp add: store_friends_def)
  have q: "queries store_friends = []"
    by (simp add: store_friends_def)
  from self_action_fails [of "''A''" store_friends 10] u q show ?thesis
    by simp
qed

text \<open>
  C6 as stated fails for \<open>requestOrAccept\<close>: the target's user record has been queried when
  the self check throws.
\<close>

theorem self_request_queries_target:
  "fst (requestOrAccept 10 ''A'' ''A'' store_friends) = Inl (HTTPError CantAddSelf 400) \<and>
   queries store_friends = [] \<and>
   queries (snd (requestOrAccept 10 ''A'' ''A'' store_friends)) = [''A'']"
  by (simp add: route_eval store_friends_def)

subsection \<open>The friend limit\<close>

lemma length_filter_conj_le:
  "length (filter (\<lambda>r. P r \<and> Q r) xs) \<le> length (filter P xs)"
  by (induction xs) auto

lemma friend_limit_reached:
  assumes "a \<noteq> b" and "a \<in> set (users s)" and "b \<in> set (users s)"
    and "maxFriends \<le> length (filter (\<lambda>r. from_id r = a \<and> type r = friends) (table s))"
  shows "requestOrAccept maxFriends a b s =
           (Inl (MAXIMUM_FRIENDS maxFriends), s\<lparr>queries := queries s @ [b, a]\<rparr>)"
proof -
  have "length (filter (\<lambda>r. from_id r = a \<and> type r = friends) (table s)) \<le>
        length (filter (\<lambda>r. from_id r = a) (table s))"
    by (rule length_filter_conj_le)
  with assms(4) have "maxFriends \<le> length (filter (\<lambda>r. from_id r = a) (table s))"
    by simp
  then show ?thesis
    by (simp add: requestOrAccept_def put_route_users [OF assms(1,2,3)])
qed

text \<open>
  C1. The limit is called \<open>maxFriends\<close> and its error \<open>MAXIMUM_FRIENDS\<close>, yet the route
  compares the number of all of the caller's edges with it. At a store where \<open>A\<close> holds one
  edge, a \<open>blocked\<close> one, and no \<open>friends\<close> edge, with \<open>maxFriends = 1\<close>,
  \<open>requestOrAccept A B\<close> is refused with \<open>MAXIMUM_FRIENDS\<close> and writes nothing.
\<close>

theorem friend_limit_counts_blocked_edges:
  "length (filter (\<lambda>r. from_id r = ''A'' \<and> type r = friends) (table store_one_block)) = 0 \<and>
   fst (requestOrAccept 1 ''A'' ''B'' store_one_block) = Inl (MAXIMUM_FRIENDS 1) \<and>
   table (snd (requestOrAccept 1 ''A'' ''B'' store_one_block)) = table store_one_block"
  by (simp add: route_eval store_one_block_def)

subsection \<open>A request and its acceptance\<close>

lemma lookup_None_iff:
  "lookup tbl a b = None \<longleftrightarrow> (\<forall>x \<in> set tbl. \<not> (from_id x = a \<and> to_id x = b))"
  by (simp add: lookup_def find_filter_None_iff)

lemma save_fresh:
  "lookup tbl (from_id r) (to_id r) = None \<Longrightarrow> save r tbl = tbl @ [r]"
  by (auto simp: lookup_None_iff save_def same_pair_def)

lemma map_replace_fresh:
  "lookup tbl (from_id r) (to_id r) = None \<Longrightarrow>
   map (\<lambda>x. if same_pair x r then r else x) tbl = tbl"
  by (rule map_idI) (auto simp: lookup_None_iff same_pair_def)

lemma save_pending_first:
  assumes "lookup tbl (from_id r) (to_id r) = None" and "same_pair x r" and "\<not> same_pair y r"
  shows "save r (tbl @ [x, y]) = tbl @ [r, y]"
  using assms by (auto simp: save_def map_replace_fresh)

lemma save_pending_second:
  assumes "lookup tbl (from_id r) (to_id r) = None" and "\<not> same_pair x r" and "same_pair y r"
  shows "save r (tbl @ [x, y]) = tbl @ [x, r]"
  using assms by (auto simp: save_def map_replace_fresh)

lemma lookup_snoc2:
  "lookup (tbl @ [x, y]) a b =
     (case lookup tbl a b of
        Some r \<Rightarrow> Some r
      | None \<Rightarrow> if from_id x = a \<and> to_id x = b then Some x
                else if from_id y = a \<and> to_id y = b then Some y else None)"
  by (auto simp: lookup_def find_append split: option.splits)

lemma request_then_accept:
  assumes ab: "a \<noteq> b" and ua: "a \<in> set (users s)" and ub: "b \<in> set (users s)"
    and nab: "findEdge s a b = None" and nba: "findEdge s b a = None"
    and ca: "length (filter (\<lambda>r. from_id r = a) (table s)) < maxFriends"
    and cb: "Suc (length (filter (\<lambda>r. from_id r = b) (table s))) < maxFriends"
  shows "fst (requestOrAccept maxFriends a b s) = Inr 204 \<and>
         table (snd (requestOrAccept maxFriends a b s)) = table s @
           [\<lparr>from_id = b, to_id = a, type = incoming\<rparr>,
            \<lparr>from_id = a, to_id = b, type = outgoing\<rparr>] \<and>
         fst (requestOrAccept maxFriends b a (snd (requestOrAccept maxFriends a b s))) = Inr 204 \<and>
         table (snd (requestOrAccept maxFriends b a (snd (requestOrAccept maxFriends a b s)))) =
           table s @ [\<lparr>from_id = b, to_id = a, type = friends\<rparr>,
                      \<lparr>from_id = a, to_id = b, type = friends\<rparr>]"
proof -
  let ?inc = "\<lparr>from_id = b, to_id = a, type = incoming\<rparr>"
  let ?out = "\<lparr>from_id = a, to_id = b, type = outgoing\<rparr>"
  let ?s1 = "snd (requestOrAccept maxFriends a b s)"
  from nab nba have l: "lookup (table s) a b = None" "lookup (table s) b a = None"
    by (simp_all add: findEdge_lookup)
  have t0: "save ?out (save ?inc (table s)) = table s @ [?inc, ?out]"
  proof -
    from l have "save ?inc (table s) = table s @ [?inc]"
      by (simp add: save_fresh)
    moreover from l ab have "lookup (table s @ [?inc]) a b = None"
      by (simp add: lookup_def find_append)
    ultimately show ?thesis
      by (simp add: save_fresh)
  qed
  have r1: "requestOrAccept maxFriends a b s = (Inr 204,
      emitEvent \<lparr>event = RELATIONSHIP_ADD, user_id = b, data = ?inc, should_notify = True\<rparr>
        (emitEvent \<lparr>event = RELATIONSHIP_ADD, user_id = a, data = ?out, should_notify = False\<rparr>
          (Relationship_save ?out (Relationship_save ?inc (s\<lparr>queries := queries s @ [b, a]\<rparr>)))))"
    using nab nba ca by (simp add: requestOrAccept_def put_route_users [OF ab ua ub])
  have t1: "table ?s1 = table s @ [?inc, ?out]"
    by (simp add: r1 emitEvent_def Relationship_save_def t0)
  have u1: "b \<in> set (users ?s1)" "a \<in> set (users ?s1)"
    using ua ub by (simp_all add: requestOrAccept_def)
  have e1: "findEdge ?s1 b a = Some ?inc" "findEdge ?s1 a b = Some ?out"
    using l ab by (simp_all add: findEdge_lookup t1 lookup_snoc2)
  have c1: "length (filter (\<lambda>r. from_id r = b) (table ?s1)) < maxFriends"
    using cb ab by (simp add: t1)
  have r2: "requestOrAccept maxFriends b a ?s1 = (Inr 204,
      emitEvent \<lparr>event = RELATIONSHIP_ADD, user_id = a,
                 data = \<lparr>from_id = a, to_id = b, type = friends\<rparr>, should_notify = True\<rparr>
        (emitEvent \<lparr>event = RELATIONSHIP_ADD, user_id = b,
                    data = \<lparr>from_id = b, to_id = a, type = friends\<rparr>, should_notify = False\<rparr>
          (Relationship_save \<lparr>from_id = b, to_id = a, type = friends\<rparr>
             (Relationship_save \<lparr>from_id = a, to_id = b, type = friends\<rparr>
                (?s1\<lparr>queries := queries ?s1 @ [a, b]\<rparr>)))))"
    unfolding requestOrAccept_def [of maxFriends b a]
    using e1 c1 ab by (simp add: put_route_users [OF ab [symmetric] u1])
  have t2: "save \<lparr>from_id = b, to_id = a, type = friends\<rparr>
              (save \<lparr>from_id = a, to_id = b, type = friends\<rparr> (table s @ [?inc, ?out])) =
            table s @ [\<lparr>from_id = b, to_id = a, type = friends\<rparr>,
                       \<lparr>from_id = a, to_id = b, type = friends\<rparr>]"
    using l ab by (simp add: save_pending_first save_pending_second same_pair_def)
  show ?thesis
    by (simp add: r2 t1 t2 emitEvent_def Relationship_save_def) (simp add: r1)
qed

lemma lookup_swap_last:
  assumes "\<not> same_pair x y"
  shows "lookup (tbl @ [x, y]) a b = lookup (tbl @ [y, x]) a b"
  using assms by (auto simp: lookup_snoc2 same_pair_def split: option.splits)

lemma request_accept_below_counts:
  assumes ab: "a \<noteq> b" and ua: "a \<in> set (users s)" and ub: "b \<in> set (users s)"
    and nab: "findEdge s a b = None" and nba: "findEdge s b a = None"
    and ca: "Suc (length (filter (\<lambda>r. from_id r = a) (table s))) < maxFriends"
    and cb: "Suc (length (filter (\<lambda>r. from_id r = b) (table s))) < maxFriends"
  shows "fst (requestOrAccept maxFriends a b s) = Inr 204 \<and>
         fst (requestOrAccept maxFriends b a (snd (requestOrAccept maxFriends a b s))) = Inr 204 \<and>
         fst (requestOrAccept maxFriends b a s) = Inr 204 \<and>
         fst (requestOrAccept maxFriends a b (snd (requestOrAccept maxFriends b a s))) = Inr 204 \<and>
         findEdge (snd (requestOrAccept maxFriends b a (snd (requestOrAccept maxFriends a b s)))) a b
           = Some \<lparr>from_id = a, to_id = b, type = friends\<rparr> \<and>
         findEdge (snd (requestOrAccept maxFriends b a (snd (requestOrAccept maxFriends a b s)))) b a
           = Some \<lparr>from_id = b, to_id = a, type = friends\<rparr> \<and>
         users (snd (requestOrAccept maxFriends b a (snd (requestOrAccept maxFriends a b s)))) =
           users (snd (requestOrAccept maxFriends a b (snd (requestOrAccept maxFriends b a s)))) \<and>
         set (table (snd (requestOrAccept maxFriends b a (snd (requestOrAccept maxFriends a b s))))) =
           set (table (snd (requestOrAccept maxFriends a b (snd (requestOrAccept maxFriends b a s))))) \<and>
         (\<forall>x y.
            findEdge (snd (requestOrAccept maxFriends b a (snd (requestOrAccept maxFriends a b s)))) x y =
            findEdge (snd (requestOrAccept maxFriends a b (snd (requestOrAccept maxFriends b a s)))) x y)"
proof -
  let ?ab = "\<lparr>from_id = a, to_id = b, type = friends\<rparr>"
  let ?ba = "\<lparr>from_id = b, to_id = a, type = friends\<rparr>"
  let ?s2 = "snd (requestOrAccept maxFriends b a (snd (requestOrAccept maxFriends a b s)))"
  let ?t2 = "snd (requestOrAccept maxFriends a b (snd (requestOrAccept maxFriends b a s)))"
  from ca cb have ca': "length (filter (\<lambda>r. from_id r = a) (table s)) < maxFriends"
    and cb': "length (filter (\<lambda>r. from_id r = b) (table s)) < maxFriends"
    by simp_all
  note one = request_then_accept [OF ab ua ub nab nba ca' cb]
  note two = request_then_accept [OF ab [symmetric] ub ua nba nab cb' ca]
  from one have s2: "table ?s2 = table s @ [?ba, ?ab]" by simp
  from two have t2: "table ?t2 = table s @ [?ab, ?ba]" by simp
  from nab nba have l: "lookup (table s) a b = None" "lookup (table s) b a = None"
    by (simp_all add: findEdge_lookup)
  have e: "findEdge ?s2 a b = Some ?ab" "findEdge ?s2 b a = Some ?ba"
    using l ab by (simp_all add: findEdge_lookup s2 lookup_snoc2)
  have u: "users ?s2 = users ?t2"
    by (simp add: requestOrAccept_def)
  have st: "set (table ?s2) = set (table ?t2)"
    by (auto simp: s2 t2)
  have "\<not> same_pair ?ba ?ab"
    using ab by (simp add: same_pair_def)
  then have "findEdge ?s2 x y = findEdge ?t2 x y" for x y
    unfolding findEdge_lookup s2 t2 by (rule lookup_swap_last)
  with one two e u st show ?thesis
    by simp
qed

lemma friend_limit_refuses:
  assumes "a \<noteq> b" and "a \<in> set (users s)" and "b \<in> set (users s)"
    and "maxFriends \<le> length (filter (\<lambda>r. from_id r = a) (table s))"
  shows "fst (requestOrAccept maxFriends a b s) = Inl (MAXIMUM_FRIENDS maxFriends)"
  using assms(4) by (simp add: requestOrAccept_def put_route_users [OF assms(1,2,3)])

lemma request_first:
  assumes ab: "a \<noteq> b" and ua: "a \<in> set (users s)" and ub: "b \<in> set (users s)"
    and nab: "findEdge s a b = None" and nba: "findEdge s b a = None"
    and ca: "length (filter (\<lambda>r. from_id r = a) (table s)) < maxFriends"
  shows "table (snd (requestOrAccept maxFriends a b s)) = table s @
           [\<lparr>from_id = b, to_id = a, type = incoming\<rparr>,
            \<lparr>from_id = a, to_id = b, type = outgoing\<rparr>]"
proof -
  let ?inc = "\<lparr>from_id = b, to_id = a, type = incoming\<rparr>"
  let ?out = "\<lparr>from_id = a, to_id = b, type = outgoing\<rparr>"
  from nab nba have l: "lookup (table s) a b = None" "lookup (table s) b a = None"
    by (simp_all add: findEdge_lookup)
  have t0: "save ?out (save ?inc (table s)) = table s @ [?inc, ?out]"
  proof -
    from l have "save ?inc (table s) = table s @ [?inc]"
      by (simp add: save_fresh)
    moreover from l ab have "lookup (table s @ [?inc]) a b = None"
      by (simp add: lookup_def find_append)
    ultimately show ?thesis
      by (simp add: save_fresh)
  qed
  have "requestOrAccept maxFriends a b s = (Inr 204,
      emitEvent \<lparr>event = RELATIONSHIP_ADD, user_id = b, data = ?inc, should_notify = True\<rparr>
        (emitEvent \<lparr>event = RELATIONSHIP_ADD, user_id = a, data = ?out, should_notify = False\<rparr>
          (Relationship_save ?out (Relationship_save ?inc (s\<lparr>queries := queries s @ [b, a]\<rparr>)))))"
    using nab nba ca by (simp add: requestOrAccept_def put_route_users [OF ab ua ub])
  then show ?thesis
    by (simp add: emitEvent_def Relationship_save_def t0)
qed

lemma accept_not_refused:
  assumes ab: "a \<noteq> b" and ua: "a \<in> set (users s)" and ub: "b \<in> set (users s)"
    and nab: "findEdge s a b = None" and nba: "findEdge s b a = None"
    and l1: "fst (requestOrAccept maxFriends a b s) \<noteq> Inl (MAXIMUM_FRIENDS maxFriends)"
    and l2: "fst (requestOrAccept maxFriends b a (snd (requestOrAccept maxFriends a b s))) \<noteq>
               Inl (MAXIMUM_FRIENDS maxFriends)"
  shows "Suc (length (filter (\<lambda>r. from_id r = b) (table s))) < maxFriends"
proof -
  let ?s1 = "snd (requestOrAccept maxFriends a b s)"
  from l1 friend_limit_refuses [OF ab ua ub, of maxFriends]
  have ca: "length (filter (\<lambda>r. from_id r = a) (table s)) < maxFriends"
    by (cases "maxFriends \<le> length (filter (\<lambda>r. from_id r = a) (table s))") simp_all
  note t1 = request_first [OF ab ua ub nab nba ca]
  have u1: "b \<in> set (users ?s1)" "a \<in> set (users ?s1)"
    using ua ub by (simp_all add: requestOrAccept_def)
  from l2 friend_limit_refuses [OF ab [symmetric] u1, of maxFriends]
  have "length (filter (\<lambda>r. from_id r = b) (table ?s1)) < maxFriends"
    by (cases "maxFriends \<le> length (filter (\<lambda>r. from_id r = b) (table ?s1))") simp_all
  then show ?thesis
    using ab by (simp add: t1)
qed

text \<open>
  C2, as amended. For distinct users \<open>a\<close> and \<open>b\<close> of the users table with no edge between
  them, when the friend limit refuses none of the calls: \<open>requestOrAccept a b\<close> followed by
  \<open>requestOrAccept b a\<close> succeeds twice and leaves \<open>a\<close> with a \<open>friends\<close> edge toward \<open>b\<close>
  and \<open>b\<close> with a \<open>friends\<close> edge toward \<open>a\<close>; the two calls in the other order succeed as
  well and end in a store with the same users, the same rows, and the same edge for every
  pair.
\<close>

theorem request_accept_either_order:
  assumes ab: "a \<noteq> b" and ua: "a \<in> set (users s)" and ub: "b \<in> set (users s)"
    and nab: "findEdge s a b = None" and nba: "findEdge s b a = None"
    and l1: "fst (requestOrAccept maxFriends a b s) \<noteq> Inl (MAXIMUM_FRIENDS maxFriends)"
    and l2: "fst (requestOrAccept maxFriends b a (snd (requestOrAccept maxFriends a b s))) \<noteq>
               Inl (MAXIMUM_FRIENDS maxFriends)"
    and l3: "fst (requestOrAccept maxFriends b a s) \<noteq> Inl (MAXIMUM_FRIENDS maxFriends)"
    and l4: "fst (requestOrAccept maxFriends a b (snd (requestOrAccept maxFriends b a s))) \<noteq>
               Inl (MAXIMUM_FRIENDS maxFriends)"
  shows "fst (requestOrAccept maxFriends a b s) = Inr 204 \<and>
         fst (requestOrAccept maxFriends b a (snd (requestOrAccept maxFriends a b s))) = Inr 204 \<and>
         fst (requestOrAccept maxFriends b a s) = Inr 204 \<and>
         fst (requestOrAccept maxFriends a b (snd (requestOrAccept maxFriends b a s))) = Inr 204 \<and>
         findEdge (snd (requestOrAccept maxFriends b a (snd (requestOrAccept maxFriends a b s)))) a b
           = Some \<lparr>from_id = a, to_id = b, type = friends\<rparr> \<and>
         findEdge (snd (requestOrAccept maxFriends b a (snd (requestOrAccept maxFriends a b s)))) b a
           = Some \<lparr>from_id = b, to_id = a, type = friends\<rparr> \<and>
         users (snd (requestOrAccept maxFriends b a (snd (requestOrAccept maxFriends a b s)))) =
           users (snd (requestOrAccept maxFriends a b (snd (requestOrAccept maxFriends b a s)))) \<and>
         set (table (snd (requestOrAccept maxFriends b a (snd (requestOrAccept maxFriends a b s))))) =
           set (table (snd (requestOrAccept maxFriends a b (snd (requestOrAccept maxFriends b a s))))) \<and>
         (\<forall>x y.
            findEdge (snd (requestOrAccept maxFriends b a (snd (requestOrAccept maxFriends a b s)))) x y =
            findEdge (snd (requestOrAccept maxFriends a b (snd (requestOrAccept maxFriends b a s)))) x y)"
proof -
  note cb = accept_not_refused [OF ab ua ub nab nba l1 l2]
  note ca = accept_not_refused [OF ab [symmetric] ub ua nba nab l3 l4]
  show ?thesis
    by (rule request_accept_below_counts [OF ab ua ub nab nba ca cb])
qed

theorem request_accept_either_order_witness:
  "findEdge (snd (requestOrAccept 10 ''B'' ''A'' (snd (requestOrAccept 10 ''A'' ''B'' store_empty))))
     ''A'' ''B'' = Some \<lparr>from_id = ''A'', to_id = ''B'', type = friends\<rparr> \<and>
   findEdge (snd (requestOrAccept 10 ''B'' ''A'' (snd (requestOrAccept 10 ''A'' ''B'' store_empty))))
     ''B'' ''A'' = Some \<lparr>from_id = ''B'', to_id = ''A'', type = friends\<rparr> \<and>
   set (table (snd (requestOrAccept 10 ''B'' ''A'' (snd (requestOrAccept 10 ''A'' ''B'' store_empty))))) =
   set (table (snd (requestOrAccept 10 ''A'' ''B'' (snd (requestOrAccept 10 ''B'' ''A'' store_empty)))))"
proof -
  have ab: "''A'' \<noteq> ''B''" by simp
  have u: "''A'' \<in> set (users store_empty)" "''B'' \<in> set (users store_empty)"
    by (simp_all add: store_empty_def)
  have n: "findEdge store_empty ''A'' ''B'' = None" "findEdge store_empty ''B'' ''A'' = None"
    by (simp_all add: findEdge_def store_empty_def)
  have l: "fst (requestOrAccept 10 ''A'' ''B'' store_empty) \<noteq> Inl (MAXIMUM_FRIENDS 10)"
    "fst (requestOrAccept 10 ''B'' ''A'' (snd (requestOrAccept 10 ''A'' ''B'' store_empty))) \<noteq>
       Inl (MAXIMUM_FRIENDS 10)"
    "fst (requestOrAccept 10 ''B'' ''A'' store_empty) \<noteq> Inl (MAXIMUM_FRIENDS 10)"
    "fst (requestOrAccept 10 ''A'' ''B'' (snd (requestOrAccept 10 ''B'' ''A'' store_empty))) \<noteq>
       Inl (MAXIMUM_FRIENDS 10)"
    by (simp_all add: route_eval store_empty_def)
  from request_accept_either_order [OF ab u n l] show ?thesis
    by (elim conjE) (intro conjI; assumption)
qed

text \<open>
  C2 as stated fails where the friend limit stops a call: with \<open>maxFriends = 1\<close> and \<open>A\<close>
  already friends with \<open>C\<close>, \<open>requestOrAccept A B\<close> is refused, and after
  \<open>requestOrAccept B A\<close> the edge of \<open>A\<close> toward \<open>B\<close> is an incoming request, not \<open>friends\<close>.
\<close>

theorem request_accept_stopped_by_limit:
  "findEdge store_full ''A'' ''B'' = None \<and> findEdge store_full ''B'' ''A'' = None \<and>
   fst (requestOrAccept 1 ''A'' ''B'' store_full) = Inl (MAXIMUM_FRIENDS 1) \<and>
   findEdge (snd (requestOrAccept 1 ''B'' ''A'' (snd (requestOrAccept 1 ''A'' ''B'' store_full))))
     ''A'' ''B'' = Some \<lparr>from_id = ''A'', to_id = ''B'', type = incoming\<rparr>"
  by (simp add: route_eval store_full_def)

section \<open>Registration\<close>

text \<open>
  C7. When registration is globally enabled and the payload's consent is false, the route
  throws the field error \<open>CONSENT_REQUIRED\<close> on \<open>consent\<close> alone, whatever the other fields,
  the configuration and the environment are, and creates no account.
\<close>

theorem consent_required_first:
  assumes "allowNewRegistration register" and "\<not> consent body"
  shows "register_route env register captcha ip body accounts =
           (Inl (FieldErrors ''consent'' ''CONSENT_REQUIRED''), accounts)"
  using assms
  by (simp add: register_route_def guards_def checks_before_date_of_birth_def Let_def)

theorem consent_required_first_witness:
  "allowNewRegistration register_example \<and> \<not> consent body_no_consent \<and>
   register_route env_example register_example captcha_example ''203.0.113.7'' body_no_consent [] =
     (Inl (FieldErrors ''consent'' ''CONSENT_REQUIRED''), [])"
proof -
  have a: "allowNewRegistration register_example"
    by (simp add: register_example_def)
  have c: "\<not> consent body_no_consent"
    by (simp add: body_no_consent_def)
  from consent_required_first [OF a c] a c show ?thesis
    by simp
qed

text \<open>
  C8. With the date of birth required and a minimum age set, for a payload that passes the
  earlier checks and carries a valid date of birth: a birth date equal to the cutoff (the
  date \<^verbatim>\<open>minimum\<close>, now minus the minimum years), or earlier, passes the date-of-birth
  check and the route goes on to the password check; a birth date later than the cutoff, by
  a day or by a millisecond, makes the route throw \<open>DATE_OF_BIRTH_UNDERAGE\<close> on
  \<open>date_of_birth\<close>.
\<close>

theorem date_of_birth_boundary:
  assumes "checks_before_date_of_birth env register captcha ip body accounts = None"
    and "dateOfBirth_required register" and "dateOfBirth_minimum register \<noteq> 0"
    and "minimum_date env (dateOfBirth_minimum register) = Time cutoff"
    and "date_of_birth body = Some (Time birth)"
  shows "(birth \<le> cutoff \<longrightarrow>
            check_date_of_birth env register body = None \<and>
            guards env register captcha ip body accounts =
              (case check_password register body of
                 Some e \<Rightarrow> Some (Inl e)
               | None \<Rightarrow> (case check_invite register body of
                             Some e \<Rightarrow> Some (Inl e)
                           | None \<Rightarrow> None))) \<and>
         (cutoff < birth \<longrightarrow>
            register_route env register captcha ip body accounts =
              (Inl (FieldErrors ''date_of_birth'' ''DATE_OF_BIRTH_UNDERAGE''), accounts))"
  using assms
  by (simp add: register_route_def guards_def check_date_of_birth_def new_Date_def)

theorem date_of_birth_boundary_witness:
  "check_date_of_birth env_example register_example (body_born 1590032000000) = None \<and>
   register_route env_example register_example captcha_example ''203.0.113.7''
       (body_born 1590118400000) [] =
     (Inl (FieldErrors ''date_of_birth'' ''DATE_OF_BIRTH_UNDERAGE''), [])"
proof -
  have p: "checks_before_date_of_birth env_example register_example captcha_example
             ''203.0.113.7'' (body_born t) [] = None" for t
    by (simp add: checks_before_date_of_birth_def env_example_def register_example_def
        captcha_example_def body_born_def truthy_def)
  have r: "dateOfBirth_required register_example" "dateOfBirth_minimum register_example \<noteq> 0"
    by (simp_all add: register_example_def)
  have m: "minimum_date env_example (dateOfBirth_minimum register_example) = Time 1590032000000"
    by (simp add: env_example_def register_example_def)
  have d: "date_of_birth (body_born t) = Some (Time t)" for t
    by (simp add: body_born_def)
  from date_of_birth_boundary [OF p r m d, of 1590032000000]
       date_of_birth_boundary [OF p r m d, of 1590118400000]
  show ?thesis
    by simp
qed

lemma invite_checked_body [simp]: "invite (checked_body env register body) = invite body"
  by (simp add: checked_body_def Let_def split: option.splits)

text \<open>
  C9. For a payload that passes every check and carries an invite code: when the account
  is created and the redemption of the invite then fails, the route throws the redemption's
  error and the users table holds the new account; when the creation itself fails, its
  error is thrown and the table is unchanged, the invite not being redeemed.
\<close>

theorem invite_failure_after_creation:
  assumes "guards env register captcha ip body accounts = None"
    and "invite body = Some code" and "code \<noteq> []"
  shows "(new_user env (checked_body env register body) accounts = Inr u \<and>
          joinGuild env (accounts @ [u]) (account_id u) code = Some e \<longrightarrow>
            register_route env register captcha ip body accounts = (Inl e, accounts @ [u])) \<and>
         (new_user env (checked_body env register body) accounts = Inl e' \<longrightarrow>
            register_route env register captcha ip body accounts = (Inl e', accounts))"
  using assms
  by (simp add: register_route_def create_and_join_def User_register_def)

theorem invite_failure_after_creation_witness:
  "guards env_example register_example captcha_example ''203.0.113.7'' body_invited [] = None \<and>
   register_route env_example register_example captcha_example ''203.0.113.7'' body_invited [] =
     (Inl (External ''Unknown Invite''),
      [\<lparr>account_id = ''1001'', account_email = Some ''z@example.org''\<rparr>])"
proof -
  have g: "guards env_example register_example captcha_example ''203.0.113.7'' body_invited [] = None"
    by (simp add: guards_def checks_before_date_of_birth_def check_date_of_birth_def
        check_password_def check_invite_def new_Date_def env_example_def register_example_def
        captcha_example_def body_invited_def truthy_def)
  have i: "invite body_invited = Some ''expired''" "''expired'' \<noteq> []"
    by (simp_all add: body_invited_def)
  have n: "new_user env_example (checked_body env_example register_example body_invited) [] =
             Inr \<lparr>account_id = ''1001'', account_email = Some ''z@example.org''\<rparr>"
    by (simp add: env_example_def checked_body_def body_invited_def register_example_def Let_def)
  have j: "joinGuild env_example
             ([] @ [\<lparr>account_id = ''1001'', account_email = Some ''z@example.org''\<rparr>])
             (account_id \<lparr>account_id = ''1001'', account_email = Some ''z@example.org''\<rparr>)
             ''expired'' = Some (External ''Unknown Invite'')"
    by (simp add: env_example_def)
  from invite_failure_after_creation [OF g i, THEN conjunct1, rule_format, OF conjI [OF n j]] g
  show ?thesis
    by simp
qed

text \<open>
  C10. The date-of-birth check throws \<open>BASE_TYPE_REQUIRED\<close> on \<open>date_of_birth\<close> exactly
  when the date of birth is required, missing, and a password is supplied. For a payload
  without a password and without a date of birth the check passes whatever the policy, and
  a payload that passed the earlier checks goes on to the password check.
\<close>

theorem guest_without_date_of_birth:
  "(check_date_of_birth env register body = Some (FieldErrors ''date_of_birth'' ''BASE_TYPE_REQUIRED'')
      \<longleftrightarrow> dateOfBirth_required register \<and> date_of_birth body = None \<and> truthy (password body)) \<and>
   (\<not> truthy (password body) \<and> date_of_birth body = None \<longrightarrow>
      check_date_of_birth env register body = None \<and>
      (checks_before_date_of_birth env register captcha ip body accounts = None \<longrightarrow>
         guards env register captcha ip body accounts =
           (case check_password register body of
              Some e \<Rightarrow> Some (Inl e)
            | None \<Rightarrow> (case check_invite register body of
                          Some e \<Rightarrow> Some (Inl e)
                        | None \<Rightarrow> None))))"
  by (auto simp: check_date_of_birth_def guards_def new_Date_def)

theorem guest_without_date_of_birth_witness:
  "dateOfBirth_required register_example \<and>
   \<not> truthy (password body_guest) \<and> date_of_birth body_guest = None \<and>
   check_date_of_birth env_example register_example body_guest = None \<and>
   guards env_example register_example captcha_example ''203.0.113.7'' body_guest [] = None"
proof -
  have r: "dateOfBirth_required register_example"
    by (simp add: register_example_def)
  have b: "\<not> truthy (password body_guest)" "date_of_birth body_guest = None"
    by (simp_all add: body_guest_def truthy_def)
  have p: "checks_before_date_of_birth env_example register_example captcha_example
             ''203.0.113.7'' body_guest [] = None"
    by (simp add: checks_before_date_of_birth_def env_example_def register_example_def
        captcha_example_def body_guest_def truthy_def)
  have c: "check_password register_example body_guest = None"
    "check_invite register_example body_guest = None"
    by (simp_all add: check_password_def check_invite_def register_example_def body_guest_def
        truthy_def register_email_truthy_def)
  from guest_without_date_of_birth [of env_example register_example body_guest
         captcha_example "''203.0.113.7''" "[]"] r b p c
  show ?thesis
    by simp
qed

end
